theory Spec2Isabelle
  imports Main "HOL-Library.Sublist"
begin

section \<open>MPVScreensaver: the launcher script\<close>

text \<open>
  A shallow embedding of \<^verbatim>\<open>screensaver.py\<close>. The script talks to the operating system
  all the time (notifications, the file system, child processes), so every function that
  has an effect takes the state of the world and returns the new one, and every effect is
  appended to a trace, in the order in which the script performs it.
\<close>

subsection \<open>Config section\<close>

text \<open>
  \<^verbatim>\<open>DISPLAYS\<close> and \<^verbatim>\<open>VIDEO_PATH\<close> are meant to be edited by the user, so the functions
  below take them in a record; \<open>default_config\<close> holds the values of the file as shipped.
\<close>

record config =
  DISPLAYS :: "int list"
  VIDEO_PATH :: "string list"

definition default_config :: config where
  "default_config = \<lparr>DISPLAYS = [0], VIDEO_PATH = []\<rparr>"

definition MPV_CONF :: string where
  \<open>MPV_CONF = ''\<newline>hwdec=no\<newline>loop-playlist=inf\<newline>image-display-duration=7\<newline>ao=null\<newline>fullscreen=yes\<newline>ontop\<newline>osc=no\<newline>osd-level=0\<newline>vo=gpu-next\<newline>input-default-bindings=no\<newline>cursor-autohide=always\<newline>title="MPVScreensaver"\<newline>stop-screensaver=no\<newline>''\<close>

definition INPUT_CONF :: string where
  \<open>INPUT_CONF = ''\<newline>MOUSE_MOVE ignore\<newline>MOUSE_ENTER ignore\<newline>MOUSE_LEAVE ignore\<newline>MBTN_LEFT quit\<newline>MBTN_RIGHT quit\<newline>UNMAPPED keybind UNMAPPED quit\<newline>''\<close>

subsection \<open>Python's string operations\<close>

text \<open>
  \<^verbatim>\<open>s.replace(old, new)\<close>: every occurrence of \<open>old\<close>, found from the left and not
  overlapping, becomes \<open>new\<close>. With an empty \<open>old\<close> Python puts \<open>new\<close> before every
  character and at the end.
\<close>

fun replace_str :: "string \<Rightarrow> string \<Rightarrow> string \<Rightarrow> string" where
  "replace_str old new [] = (if old = [] then new else [])"
| "replace_str old new (c # cs) =
     (if old = [] then new @ c # replace_str old new cs
      else if prefix old (c # cs) then new @ replace_str old new (drop (length old - 1) cs)
      else c # replace_str old new cs)"

text \<open>\<^verbatim>\<open>sep.join(xs)\<close>.\<close>

fun join_str :: "string \<Rightarrow> string list \<Rightarrow> string" where
  "join_str sep [] = []"
| "join_str sep [x] = x"
| "join_str sep (x # y # ys) = x @ sep @ join_str sep (y # ys)"

text \<open>\<^verbatim>\<open>str(n)\<close> for an integer, as an f-string formats it: decimal, with a minus sign.\<close>

definition digit_char :: "nat \<Rightarrow> char" where
  "digit_char d = ''0123456789'' ! d"

fun str_nat :: "nat \<Rightarrow> string" where
  "str_nat n = (if n < 10 then [digit_char n] else str_nat (n div 10) @ [digit_char (n mod 10)])"

definition str_int :: "int \<Rightarrow> string" where
  "str_int i = (if i < 0 then ''-'' @ str_nat (nat (- i)) else str_nat (nat i))"

text \<open>\<^verbatim>\<open>s.split("\n")\<close>, used to speak about the lines of a document.\<close>

fun split_lines :: "string \<Rightarrow> string list" where
  "split_lines [] = [] # []"
| "split_lines (c # cs) =
     (if c = CHR ''\<newline>'' then [] # split_lines cs
      else (case split_lines cs of l # ls \<Rightarrow> (c # l) # ls | [] \<Rightarrow> [c] # []))"

subsection \<open>adjust\_mpv\_conf\<close>

definition adjust_mpv_conf :: "int \<Rightarrow> string" where
  "adjust_mpv_conf video_count =
     (if video_count = 1 then replace_str ''loop-playlist=inf'' ''loop=inf'' MPV_CONF
      else MPV_CONF)"

subsection \<open>The world outside the script\<close>

text \<open>
  The script reaches the world through the standard library only. What the library
  does is modelled as its documentation says, and as far as the script can observe it:
  \<^item> \<^verbatim>\<open>subprocess.run\<close> starts \<^verbatim>\<open>notify-send\<close> and ignores its exit status, or raises
    \<^verbatim>\<open>FileNotFoundError\<close> when \<^verbatim>\<open>notify-send\<close> cannot be started, as the environment
    decides; the script catches that exception nowhere;
  \<^item> \<^verbatim>\<open>subprocess.Popen\<close> starts a child or raises, as the environment decides;
  \<^item> \<^verbatim>\<open>tempfile.mkdtemp\<close>, \<^verbatim>\<open>Path.write_text\<close> and \<^verbatim>\<open>shutil.rmtree\<close> succeed;
  \<^item> time is counted in rounds of the monitoring loop, and the user's interruption, if
    there is one, arrives while that loop sleeps.
\<close>

text \<open>
  The effects of the script, as events. \<open>Run\<close> is a \<^verbatim>\<open>subprocess.run(argv)\<close> that
  started its program, \<open>RunRaised\<close> one that raised, \<open>Popen\<close> a
  \<^verbatim>\<open>subprocess.Popen(argv)\<close> that returned the handle with the given number,
  \<open>PopenRaised\<close> one that raised; \<open>Terminate\<close> and \<open>Wait\<close> are the calls
  \<^verbatim>\<open>proc.terminate()\<close> and \<^verbatim>\<open>proc.wait()\<close> on a handle.
\<close>

datatype event =
    Run "string list"
  | RunRaised "string list"
  | Print string
  | Mkdtemp string
  | WriteText string string
  | Popen "string list" nat
  | PopenRaised "string list"
  | Terminate nat
  | Wait nat
  | Rmtree string

text \<open>
  A player process, seen from outside: the polling round of the monitoring loop in which
  it ends by itself (\<open>None\<close>: it plays forever, as a looping playlist does), and whether
  it exits when it is asked to terminate.
\<close>

record child =
  exits_at :: "nat option"
  obeys_term :: bool

text \<open>
  A \<^verbatim>\<open>Popen\<close> object: \<open>returncode_set\<close> says that \<^verbatim>\<open>returncode\<close> is not \<^verbatim>\<open>None\<close>, which
  is the case once \<^verbatim>\<open>poll\<close> or \<^verbatim>\<open>wait\<close> has collected the exit status of the child;
  \<open>reaped\<close> counts how often that has happened.
\<close>

record proc =
  handle :: nat
  argv :: "string list"
  life :: child
  returncode_set :: bool
  term_sent :: bool
  reaped :: nat

text \<open>
  What the environment decides: whether \<^verbatim>\<open>notify-send\<close> can be started, the
  directory and the random suffix that \<^verbatim>\<open>tempfile.mkdtemp\<close> uses, for the \<open>i\<close>-th display target whether \<^verbatim>\<open>Popen\<close> raises
  (\<open>None\<close>) or which child it starts, and the polling round in which the user
  interrupts the script (\<open>None\<close>: never).
\<close>

record env =
  notify_send_runs :: bool
  tempdir :: string
  suffix :: string
  popen_result :: "nat \<Rightarrow> child option"
  interrupt_at :: "nat option"

text \<open>
  The file system holds directories, regular files with their contents, and other
  entries (devices such as \<^verbatim>\<open>/dev/null\<close>, sockets, pipes).
\<close>

record state =
  dirs :: "string set"
  files :: "string \<rightharpoonup> string"
  specials :: "string set"
  processes :: "proc list"
  trace :: "event list"

datatype exn = OSError | FileNotFoundError | KeyboardInterrupt | StopIteration

datatype outcome = Returned | Raised exn

text \<open>The exit status of the interpreter: 0 when \<^verbatim>\<open>main\<close> returns, 1 after a traceback.\<close>

fun exit_status :: "outcome \<Rightarrow> int" where
  "exit_status Returned = 0"
| "exit_status (Raised e) = 1"

definition emit :: "event \<Rightarrow> state \<Rightarrow> state" where
  "emit e s = s\<lparr>trace := trace s @ [e]\<rparr>"

definition print :: "string \<Rightarrow> state \<Rightarrow> state" where
  "print line s = emit (Print line) s"

text \<open>\<^verbatim>\<open>os.path.exists\<close>: true of every entry, whatever its kind.\<close>

definition path_exists :: "state \<Rightarrow> string \<Rightarrow> bool" where
  "path_exists s p = (p \<in> dirs s \<or> files s p \<noteq> None \<or> p \<in> specials s)"

definition write_text :: "string \<Rightarrow> string \<Rightarrow> state \<Rightarrow> state" where
  "write_text path content s = emit (WriteText path content) (s\<lparr>files := (files s)(path \<mapsto> content)\<rparr>)"

text \<open>\<^verbatim>\<open>shutil.rmtree\<close>: the directory goes, with everything below it.\<close>

definition below :: "string \<Rightarrow> string \<Rightarrow> bool" where
  "below d p = prefix (d @ ''/'') p"

definition rmtree :: "string \<Rightarrow> state \<Rightarrow> state" where
  "rmtree d s =
     emit (Rmtree d)
       (s\<lparr>dirs := {p \<in> dirs s. p \<noteq> d \<and> \<not> below d p},
          files := (\<lambda>p. if below d p then None else files s p),
          specials := {p \<in> specials s. \<not> below d p}\<rparr>)"

subsection \<open>send\_notification\<close>

text \<open>
  \<^verbatim>\<open>subprocess.run(argv)\<close> without \<^verbatim>\<open>check\<close>: it returns whatever the program does, and
  raises when the program cannot be started. The script runs only \<^verbatim>\<open>notify-send\<close> this way.
\<close>

definition subprocess_run :: "string list \<Rightarrow> env \<Rightarrow> state \<Rightarrow> outcome \<times> state" where
  "subprocess_run cmd e s =
     (if notify_send_runs e then (Returned, emit (Run cmd) s)
      else (Raised FileNotFoundError, emit (RunRaised cmd) s))"

definition send_notification :: "string \<Rightarrow> bool \<Rightarrow> env \<Rightarrow> state \<Rightarrow> outcome \<times> state" where
  "send_notification message urgent e s =
     (let app_name = ''MPVScreensaver'';
          urgency = (if urgent then ''critical'' else ''normal'')
      in subprocess_run [''notify-send'', ''-a'', app_name, ''-u'', urgency, message] e s)"

subsection \<open>parse\_arguments\<close>

text \<open>
  The namespace that \<^verbatim>\<open>argparse\<close> returns: the positional arguments and the
  \<^verbatim>\<open>--dry-run\<close> flag. Parsing the command line itself is the library's work.
\<close>

record args =
  videos :: "string list"
  dry_run :: bool

text \<open>
  The loop that filters out missing files, with its two variables \<^verbatim>\<open>valid_videos\<close>
  and \<^verbatim>\<open>notifications_sent\<close>. An exception of \<^verbatim>\<open>send_notification\<close> ends the loop and
  the function: the result is \<open>Inl\<close> with the exception, \<open>Inr\<close> with the values otherwise.
\<close>

fun filter_loop ::
  "env \<Rightarrow> string list \<Rightarrow> string list \<Rightarrow> nat \<Rightarrow> state \<Rightarrow> exn \<times> state + string list \<times> nat \<times> state" where
  "filter_loop e [] valid_videos notifications_sent s = Inr (valid_videos, notifications_sent, s)"
| "filter_loop e (file # rest) valid_videos notifications_sent s =
     (if path_exists s file then filter_loop e rest (valid_videos @ [file]) notifications_sent s
      else if notifications_sent < 3
        then (case send_notification (''File not found: '' @ file) False e s of
                (Raised x, s') \<Rightarrow> Inl (x, s')
              | (Returned, s') \<Rightarrow> filter_loop e rest valid_videos (notifications_sent + 1) s')
      else filter_loop e rest valid_videos notifications_sent s)"

definition parse_arguments ::
  "config \<Rightarrow> args \<Rightarrow> env \<Rightarrow> state \<Rightarrow> exn \<times> state + args \<times> string list \<times> state" where
  "parse_arguments cfg a e s =
     (let video_list = (if videos a \<noteq> [] then videos a else VIDEO_PATH cfg)
      in case filter_loop e video_list [] 0 s of
           Inl (x, s') \<Rightarrow> Inl (x, s')
         | Inr (valid_videos, notifications_sent, s') \<Rightarrow> Inr (a, valid_videos, s'))"

subsection \<open>create\_temp\_config\_dir\<close>

definition mkdtemp :: "string \<Rightarrow> env \<Rightarrow> state \<Rightarrow> string \<times> state" where
  "mkdtemp pre e s =
     (let d = tempdir e @ ''/'' @ pre @ suffix e
      in (d, emit (Mkdtemp d) (s\<lparr>dirs := insert d (dirs s)\<rparr>)))"

definition create_temp_config_dir :: "int \<Rightarrow> env \<Rightarrow> state \<Rightarrow> string \<times> state" where
  "create_temp_config_dir video_count e s =
     (case mkdtemp ''mpvconfig_'' e s of
        (temp_dir, s1) \<Rightarrow>
          (let adjusted_conf = adjust_mpv_conf video_count;
               s2 = write_text (temp_dir @ ''/'' @ ''mpv.conf'') adjusted_conf s1;
               s3 = write_text (temp_dir @ ''/'' @ ''input.conf'') INPUT_CONF s2
           in (temp_dir, s3)))"

subsection \<open>main: launching one player for each display\<close>

definition mpv_cmd :: "string \<Rightarrow> int \<Rightarrow> string list \<Rightarrow> string list" where
  "mpv_cmd config_dir display video_list =
     [''mpv'', ''--config-dir='' @ config_dir, ''--fs-screen='' @ str_int display] @ video_list"

definition new_proc :: "nat \<Rightarrow> string list \<Rightarrow> child \<Rightarrow> proc" where
  "new_proc h cmd c =
     \<lparr>handle = h, argv = cmd, life = c, returncode_set = False, term_sent = False, reaped = 0\<rparr>"

text \<open>
  The \<^verbatim>\<open>for i, display in enumerate(DISPLAYS)\<close> loop. An exception of \<^verbatim>\<open>Popen\<close> is
  caught nowhere, so it ends the loop and leaves \<^verbatim>\<open>main\<close>.
\<close>

fun spawn_loop :: "env \<Rightarrow> bool \<Rightarrow> string \<Rightarrow> string list \<Rightarrow> (nat \<times> int) list \<Rightarrow> state \<Rightarrow> outcome \<times> state" where
  "spawn_loop e dry config_dir video_list [] s = (Returned, s)"
| "spawn_loop e dry config_dir video_list ((i, display) # rest) s =
     (let cmd = mpv_cmd config_dir display video_list in
      if dry then
        spawn_loop e dry config_dir video_list rest
          (print (''Command: '' @ join_str '' '' cmd)
            (print (''Would launch mpv for display '' @ str_int display @ '' with ''
                      @ str_nat (length video_list) @ '' videos'') s))
      else
        (case popen_result e i of
           None \<Rightarrow> (Raised OSError, emit (PopenRaised cmd) s)
         | Some c \<Rightarrow>
             spawn_loop e dry config_dir video_list rest
               (print (''Launched mpv for display '' @ str_int display @ '' with ''
                         @ str_nat (length video_list) @ '' videos'')
                 (emit (Popen cmd (length (processes s)))
                   (s\<lparr>processes := processes s @ [new_proc (length (processes s)) cmd c]\<rparr>)))))"

subsection \<open>main: waiting for the first player to finish\<close>

text \<open>
  Has the child ended by round \<open>now\<close>: by itself, or because it was asked to and obeys.
\<close>

definition has_exited :: "nat \<Rightarrow> proc \<Rightarrow> bool" where
  "has_exited now p =
     ((term_sent p \<and> obeys_term (life p))
      \<or> (case exits_at (life p) of None \<Rightarrow> False | Some t \<Rightarrow> t \<le> now))"

text \<open>
  \<^verbatim>\<open>proc.poll()\<close>: the first component says that the result is not \<^verbatim>\<open>None\<close>. The
  first poll that finds the child gone collects its exit status.
\<close>

definition poll :: "nat \<Rightarrow> proc \<Rightarrow> bool \<times> proc" where
  "poll now p =
     (if returncode_set p then (True, p)
      else if has_exited now p then (True, p\<lparr>returncode_set := True, reaped := reaped p + 1\<rparr>)
      else (False, p))"

text \<open>
  One pass of \<^verbatim>\<open>for proc in processes\<close> inside the \<^verbatim>\<open>while True\<close>: the first handle with a
  return code raises \<^verbatim>\<open>StopIteration\<close> (the result \<open>True\<close>), and the handles after it are
  not polled.
\<close>

fun poll_all :: "nat \<Rightarrow> proc list \<Rightarrow> bool \<times> proc list" where
  "poll_all now [] = (False, [])"
| "poll_all now (p # ps) =
     (case poll now p of
        (True, p') \<Rightarrow> (True, p' # ps)
      | (False, p') \<Rightarrow> (case poll_all now ps of (b, ps') \<Rightarrow> (b, p' # ps')))"

text \<open>
  The \<^verbatim>\<open>while True\<close> loop, in its round \<open>t\<close>. It ends with the exception that leaves
  it and the round in which that happened; when no child ever ends and nobody
  interrupts, it runs forever and the result is \<open>None\<close>. The interruption of round \<open>t\<close>
  arrives in the \<^verbatim>\<open>time.sleep\<close> of that round, after the polls.
\<close>

partial_function (option) monitor :: "env \<Rightarrow> nat \<Rightarrow> state \<Rightarrow> (exn \<times> nat \<times> state) option" where
  "monitor e t s =
     (case poll_all t (processes s) of
        (stop, ps) \<Rightarrow>
          if stop then Some (StopIteration, t, s\<lparr>processes := ps\<rparr>)
          else if interrupt_at e = Some t then Some (KeyboardInterrupt, t, s\<lparr>processes := ps\<rparr>)
          else monitor e (t + 1) (s\<lparr>processes := ps\<rparr>))"

subsection \<open>main: the finally block\<close>

text \<open>The first loop: \<^verbatim>\<open>if proc.poll() is None: proc.terminate()\<close>.\<close>

fun terminate_loop :: "nat \<Rightarrow> proc list \<Rightarrow> state \<Rightarrow> proc list \<times> state" where
  "terminate_loop now [] s = ([], s)"
| "terminate_loop now (p # ps) s =
     (case poll now p of
        (False, p') \<Rightarrow>
          (case terminate_loop now ps (emit (Terminate (handle p')) s) of
             (ps', s') \<Rightarrow> (p'\<lparr>term_sent := True\<rparr> # ps', s'))
      | (True, p') \<Rightarrow>
          (case terminate_loop now ps s of (ps', s') \<Rightarrow> (p' # ps', s')))"

text \<open>
  \<^verbatim>\<open>proc.wait()\<close> blocks until the child is gone and collects its exit status, unless
  that was done before. A child that was not asked to terminate, or does not obey, and
  never ends by itself keeps \<^verbatim>\<open>wait\<close> blocked forever: \<open>None\<close>.
\<close>

definition wait :: "proc \<Rightarrow> proc option" where
  "wait p =
     (if returncode_set p then Some p
      else if (term_sent p \<and> obeys_term (life p)) \<or> exits_at (life p) \<noteq> None
        then Some (p\<lparr>returncode_set := True, reaped := reaped p + 1\<rparr>)
      else None)"

fun wait_loop :: "proc list \<Rightarrow> state \<Rightarrow> (proc list \<times> state) option" where
  "wait_loop [] s = Some ([], s)"
| "wait_loop (p # ps) s =
     (case wait p of
        None \<Rightarrow> None
      | Some p' \<Rightarrow>
          (case wait_loop ps (emit (Wait (handle p')) s) of
             None \<Rightarrow> None
           | Some (ps', s') \<Rightarrow> Some (p' # ps', s')))"

definition finally_block :: "nat \<Rightarrow> state \<Rightarrow> state option" where
  "finally_block now s =
     (case terminate_loop now (processes s) s of
        (ps1, s1) \<Rightarrow>
          (case wait_loop ps1 s1 of
             None \<Rightarrow> None
           | Some (ps2, s2) \<Rightarrow> Some (s2\<lparr>processes := ps2\<rparr>)))"

text \<open>
  The \<^verbatim>\<open>try\<close> statement: both exceptions that can leave the loop are caught, the
  interruption prints a line, and the \<^verbatim>\<open>finally\<close> block runs after either, in the
  round in which the loop was left.
\<close>

definition try_block :: "env \<Rightarrow> state \<Rightarrow> state option" where
  "try_block e s =
     (case monitor e 0 s of
        None \<Rightarrow> None
      | Some (cause, now, s1) \<Rightarrow>
          finally_block now
            (if cause = KeyboardInterrupt then print ''Interrupted by user'' s1 else s1))"

subsection \<open>main\<close>

definition main :: "config \<Rightarrow> args \<Rightarrow> env \<Rightarrow> state \<Rightarrow> (outcome \<times> state) option" where
  "main cfg cli e s0 =
     (case parse_arguments cfg cli e s0 of
        Inl (x, s1) \<Rightarrow> Some (Raised x, s1)
      | Inr (a, video_list, s1) \<Rightarrow>
          if video_list = [] then
            (case send_notification ''No videos to play'' True e s1 of
               (Raised x, s2) \<Rightarrow> Some (Raised x, s2)
             | (Returned, s2) \<Rightarrow> Some (Returned, print ''No videos to play'' s2))
          else
            (case create_temp_config_dir (int (length video_list)) e s1 of
               (config_dir, s2) \<Rightarrow>
                 (let s3 = print (''Temporary config directory: '' @ config_dir) s2 in
                  case spawn_loop e (dry_run a) config_dir video_list
                         (enumerate 0 (DISPLAYS cfg)) (s3\<lparr>processes := []\<rparr>) of
                    (Raised x, s4) \<Rightarrow> Some (Raised x, s4)
                  | (Returned, s4) \<Rightarrow>
                      (case (if processes s4 \<noteq> [] then try_block e s4 else Some s4) of
                         None \<Rightarrow> None
                       | Some s5 \<Rightarrow> Some (Returned, rmtree config_dir s5)))))"

section \<open>Notions used in the statements\<close>

text \<open>
  The event of \<^verbatim>\<open>send_notification(f"File not found: {file}", urgent=False)\<close>, when
  \<^verbatim>\<open>notify-send\<close> starts and when it does not.
\<close>
definition not_found :: "string \<Rightarrow> event" where
  "not_found p = Run [''notify-send'', ''-a'', ''MPVScreensaver'', ''-u'', ''normal'', ''File not found: '' @ p]"

definition not_found_raised :: "string \<Rightarrow> event" where
  "not_found_raised p =
     RunRaised [''notify-send'', ''-a'', ''MPVScreensaver'', ''-u'', ''normal'', ''File not found: '' @ p]"

text \<open>
  The list that \<^verbatim>\<open>parse_arguments\<close> filters: the positional arguments, or
  \<^verbatim>\<open>VIDEO_PATH\<close> when there are none.
\<close>
definition working_list :: "config \<Rightarrow> args \<Rightarrow> string list" where
  "working_list cfg a = (if videos a \<noteq> [] then videos a else VIDEO_PATH cfg)"

text \<open>
  The event of \<^verbatim>\<open>send_notification("No videos to play", urgent=True)\<close>, when
  \<^verbatim>\<open>notify-send\<close> starts and when it does not.
\<close>
definition urgent_note :: event where
  "urgent_note = Run [''notify-send'', ''-a'', ''MPVScreensaver'', ''-u'', ''critical'', ''No videos to play'']"

definition urgent_note_raised :: event where
  "urgent_note_raised =
     RunRaised [''notify-send'', ''-a'', ''MPVScreensaver'', ''-u'', ''critical'', ''No videos to play'']"

text \<open>
  A small world for concrete runs: one directory, two files and a device, and an
  environment in which \<^verbatim>\<open>notify-send\<close> starts, the first player ends in round 2 and
  every other player loops until it is told to stop; the same environment without
  \<^verbatim>\<open>notify-send\<close>.
\<close>
definition w_state :: state where
  "w_state = \<lparr>dirs = {''/videos''}, files = [''/videos/a.mp4'' \<mapsto> ''A'', ''b.mp4'' \<mapsto> ''B''],
              specials = {''/dev/null''}, processes = [], trace = []\<rparr>"

definition w_env :: env where
  "w_env = \<lparr>notify_send_runs = True, tempdir = ''/tmp'', suffix = ''k3x9'',
            popen_result = (\<lambda>i. Some \<lparr>exits_at = (if i = 0 then Some 2 else None), obeys_term = True\<rparr>),
            interrupt_at = None\<rparr>"

definition w_env_no_notifier :: env where
  "w_env_no_notifier = w_env\<lparr>notify_send_runs := False\<rparr>"

text \<open>
  The directory that \<^verbatim>\<open>mkdtemp(prefix="mpvconfig_")\<close> creates in this environment.
\<close>
definition config_dir_of :: "env \<Rightarrow> string" where
  "config_dir_of e = tempdir e @ ''/mpvconfig_'' @ suffix e"

text \<open>
  What \<^verbatim>\<open>main\<close> does between the check for an empty list and the loop over the
  displays, for \<open>n\<close> videos.
\<close>
definition setup_events :: "env \<Rightarrow> nat \<Rightarrow> event list" where
  "setup_events e n =
     [Mkdtemp (config_dir_of e),
      WriteText (config_dir_of e @ ''/mpv.conf'') (adjust_mpv_conf (int n)),
      WriteText (config_dir_of e @ ''/input.conf'') INPUT_CONF,
      Print (''Temporary config directory: '' @ config_dir_of e)]"

text \<open>
  The two lines that a dry run prints for one display.
\<close>
definition dry_run_prints :: "string \<Rightarrow> string list \<Rightarrow> int \<Rightarrow> event list" where
  "dry_run_prints d vl display =
     [Print (''Would launch mpv for display '' @ str_int display @ '' with ''
               @ str_nat (length vl) @ '' videos''),
      Print (''Command: '' @ join_str '' ''
               ([''mpv'', ''--config-dir='' @ d, ''--fs-screen='' @ str_int display] @ vl))]"

text \<open>
  The events of one successful pass of the loop over the displays, and the
  \<^verbatim>\<open>Popen\<close> object it appends to \<^verbatim>\<open>processes\<close>.
\<close>
definition launch_events :: "string \<Rightarrow> string list \<Rightarrow> nat \<times> int \<Rightarrow> event list" where
  "launch_events d vl = (\<lambda>(i, display).
     [Popen (mpv_cmd d display vl) i,
      Print (''Launched mpv for display '' @ str_int display @ '' with ''
               @ str_nat (length vl) @ '' videos'')])"

definition spawned :: "env \<Rightarrow> string \<Rightarrow> string list \<Rightarrow> nat \<times> int \<Rightarrow> proc" where
  "spawned e d vl = (\<lambda>(i, display). new_proc i (mpv_cmd d display vl) (the (popen_result e i)))"

text \<open>
  The state in which the loop over the displays starts, for \<open>n\<close> videos.
\<close>
definition after_setup :: "env \<Rightarrow> nat \<Rightarrow> state \<Rightarrow> state" where
  "after_setup e n s =
     s\<lparr>dirs := insert (config_dir_of e) (dirs s),
       files := (files s)(config_dir_of e @ ''/mpv.conf'' \<mapsto> adjust_mpv_conf (int n),
                          config_dir_of e @ ''/input.conf'' \<mapsto> INPUT_CONF),
       processes := [],
       trace := trace s @ setup_events e n\<rparr>"

text \<open>
  A configuration with two displays.
\<close>
definition w_config :: config where
  "w_config = \<lparr>DISPLAYS = [0, 1], VIDEO_PATH = []\<rparr>"

text \<open>
  What the first loop of the \<^verbatim>\<open>finally\<close> block makes of one handle in round \<open>now\<close>.
\<close>
definition asked :: "nat \<Rightarrow> proc \<Rightarrow> proc" where
  "asked now p = (case poll now p of (False, p') \<Rightarrow> p'\<lparr>term_sent := True\<rparr> | (True, p') \<Rightarrow> p')"

text \<open>
  The loop ends in round \<open>t\<close>: a poll finds a child gone, or the interruption arrives.
\<close>
definition stops_at :: "env \<Rightarrow> proc list \<Rightarrow> nat \<Rightarrow> bool" where
  "stops_at e ps t = (fst (poll_all t ps) \<or> interrupt_at e = Some t)"

text \<open>
  A handle whose exit status was collected as often as its return code says, and a
  child that ends by itself or when asked to.
\<close>
definition tidy :: "proc \<Rightarrow> bool" where
  "tidy p = (reaped p = (if returncode_set p then 1 else 0))"

definition stoppable :: "proc \<Rightarrow> bool" where
  "stoppable p = (exits_at (life p) = None \<longrightarrow> obeys_term (life p))"

text \<open>
  The child started for the \<open>i\<close>-th display has not ended by itself by round \<open>now\<close>.
\<close>
definition still_running :: "env \<Rightarrow> nat \<Rightarrow> nat \<Rightarrow> bool" where
  "still_running e now i =
     (case popen_result e i of
        None \<Rightarrow> False
      | Some c \<Rightarrow> (case exits_at c of None \<Rightarrow> True | Some t \<Rightarrow> now < t))"

text \<open>
  The state in which the monitoring loop starts when every \<^verbatim>\<open>Popen\<close> has succeeded.
\<close>
definition all_spawned :: "config \<Rightarrow> env \<Rightarrow> string list \<Rightarrow> state \<Rightarrow> state" where
  "all_spawned cfg e vl s =
     (after_setup e (length vl) s)
       \<lparr>processes := map (spawned e (config_dir_of e) vl) (enumerate 0 (DISPLAYS cfg)),
         trace := trace s @ setup_events e (length vl)
           @ concat (map (launch_events (config_dir_of e) vl) (enumerate 0 (DISPLAYS cfg)))\<rparr>"

text \<open>
  Environments in which the player cannot be started at all, in which only the second
  \<^verbatim>\<open>Popen\<close> fails, and in which the user interrupts in round 1; three displays.
\<close>
definition w_env_no_player :: env where
  "w_env_no_player = w_env\<lparr>popen_result := (\<lambda>i. None)\<rparr>"

definition w_env_second_fails :: env where
  "w_env_second_fails =
     w_env\<lparr>popen_result := (\<lambda>i. if i = 1 then None else Some \<lparr>exits_at = None, obeys_term = True\<rparr>)\<rparr>"

definition w_env_interrupted :: env where
  "w_env_interrupted = w_env\<lparr>interrupt_at := Some 1\<rparr>"

definition w_config3 :: config where
  "w_config3 = \<lparr>DISPLAYS = [0, 1, 2], VIDEO_PATH = []\<rparr>"

text \<open>
  The \<^verbatim>\<open>Popen\<close> calls in a trace, those that returned and those that raised.
\<close>
fun is_attempt :: "event \<Rightarrow> bool" where
  "is_attempt (Popen cmd h) = True"
| "is_attempt (PopenRaised cmd) = True"
| "is_attempt ev = False"

section \<open>Properties\<close>

subsection \<open>The input resolver\<close>

lemma path_exists_emit [simp]: "path_exists (emit ev s) p = path_exists s p"
  by (simp add: path_exists_def emit_def)

lemma notify_not_found:
  "send_notification (''File not found: '' @ p) False e s =
     (if notify_send_runs e then (Returned, emit (not_found p) s)
      else (Raised FileNotFoundError, emit (not_found_raised p) s))"
  by (simp add: send_notification_def subprocess_run_def not_found_def not_found_raised_def)

lemma filter_loop_spec:
  "filter_loop e xs valid n s =
     (if notify_send_runs e \<or> take (3 - n) (filter (\<lambda>p. \<not> path_exists s p) xs) = []
      then Inr (valid @ filter (path_exists s) xs,
                n + length (take (3 - n) (filter (\<lambda>p. \<not> path_exists s p) xs)),
                s\<lparr>trace := trace s @ map not_found (take (3 - n) (filter (\<lambda>p. \<not> path_exists s p) xs))\<rparr>)
      else Inl (FileNotFoundError,
                s\<lparr>trace := trace s @ [not_found_raised (hd (filter (\<lambda>p. \<not> path_exists s p) xs))]\<rparr>))"
proof (induction xs arbitrary: valid n s)
  case Nil
  show ?case by simp
next
  case (Cons f rest)
  show ?case
  proof (cases "path_exists s f")
    case True
    then show ?thesis by (simp add: Cons.IH)
  next
    case missing: False
    show ?thesis
    proof (cases "n < 3")
      case True
      then obtain k where k: "3 - n = Suc k" "3 - (n + 1) = k"
        by (cases "3 - n") auto
      have pe: "path_exists (emit (not_found f) s) = path_exists s"
        by (rule ext) simp
      show ?thesis
      proof (cases "notify_send_runs e")
        case runs: True
        have step: "filter_loop e (f # rest) valid n s
                    = filter_loop e rest valid (n + 1) (emit (not_found f) s)"
          using missing True runs
          by (simp only: filter_loop.simps notify_not_found if_True if_False prod.case outcome.case)
        show ?thesis
          unfolding step Cons.IH pe
          using missing k runs by (simp add: emit_def)
      next
        case False
        have step: "filter_loop e (f # rest) valid n s
                    = Inl (FileNotFoundError, emit (not_found_raised f) s)"
          using missing True False
          by (simp only: filter_loop.simps notify_not_found if_True if_False prod.case outcome.case)
        show ?thesis
          unfolding step using missing k False by (simp add: emit_def)
      qed
    next
      case False
      then have "3 - n = 0" by simp
      with missing False show ?thesis by (simp add: Cons.IH)
    qed
  qed
qed

lemma parse_arguments_spec:
  "parse_arguments cfg a e s =
     (if notify_send_runs e \<or> filter (\<lambda>p. \<not> path_exists s p) (working_list cfg a) = []
      then Inr (a, filter (path_exists s) (working_list cfg a),
                s\<lparr>trace := trace s @ map not_found (take 3 (filter (\<lambda>p. \<not> path_exists s p) (working_list cfg a)))\<rparr>)
      else Inl (FileNotFoundError,
                s\<lparr>trace := trace s @ [not_found_raised (hd (filter (\<lambda>p. \<not> path_exists s p) (working_list cfg a)))]\<rparr>))"
  by (simp add: parse_arguments_def filter_loop_spec working_list_def Let_def)

lemma parse_arguments_returned:
  assumes "parse_arguments cfg a e s = Inr (a', valid, s')"
  shows "a' = a" and "valid = filter (path_exists s) (working_list cfg a)"
    and "s' = s\<lparr>trace := trace s @ map not_found (take 3 (filter (\<lambda>p. \<not> path_exists s p) (working_list cfg a)))\<rparr>"
    and "notify_send_runs e \<or> filter (\<lambda>p. \<not> path_exists s p) (working_list cfg a) = []"
  using assms unfolding parse_arguments_spec by (auto split: if_splits)

subsection \<open>The two config documents\<close>

lemma conf_one_has_loop: "sublist ''loop=inf'' (replace_str ''loop-playlist=inf'' ''loop=inf'' MPV_CONF)"
  by code_simp
lemma conf_one_no_playlist: "\<not> sublist ''loop-playlist=inf'' (replace_str ''loop-playlist=inf'' ''loop=inf'' MPV_CONF)"
  by code_simp
lemma conf_many_no_loop: "\<not> sublist ''loop=inf'' MPV_CONF"
  by code_simp
lemma conf_many_has_playlist: "sublist ''loop-playlist=inf'' MPV_CONF"
  by code_simp
lemma conf_one_lines:
  "split_lines (replace_str ''loop-playlist=inf'' ''loop=inf'' MPV_CONF) = (split_lines MPV_CONF)[2 := ''loop=inf'']"
  by code_simp
lemma conf_many_lines:
  "split_lines MPV_CONF = (split_lines MPV_CONF)[2 := ''loop-playlist=inf'']"
  by code_simp

lemma create_temp_config_dir_spec:
  "create_temp_config_dir n e s =
     (tempdir e @ ''/mpvconfig_'' @ suffix e,
      s\<lparr>dirs := insert (tempdir e @ ''/mpvconfig_'' @ suffix e) (dirs s),
        files := (files s)((tempdir e @ ''/mpvconfig_'' @ suffix e) @ ''/mpv.conf'' \<mapsto> adjust_mpv_conf n,
                           (tempdir e @ ''/mpvconfig_'' @ suffix e) @ ''/input.conf'' \<mapsto> INPUT_CONF),
        trace := trace s @ [Mkdtemp (tempdir e @ ''/mpvconfig_'' @ suffix e),
                            WriteText ((tempdir e @ ''/mpvconfig_'' @ suffix e) @ ''/mpv.conf'') (adjust_mpv_conf n),
                            WriteText ((tempdir e @ ''/mpvconfig_'' @ suffix e) @ ''/input.conf'') INPUT_CONF]\<rparr>)"
  by (simp add: create_temp_config_dir_def mkdtemp_def write_text_def emit_def Let_def)

text \<open>
  Claim C5. For every video count \<open>n\<close>, the settings document written to
  \<^verbatim>\<open>mpv.conf\<close> contains \<^verbatim>\<open>loop=inf\<close> exactly when \<open>n = 1\<close> and \<^verbatim>\<open>loop-playlist=inf\<close>
  exactly when \<open>n \<noteq> 1\<close>; its lines are those of the template except for line 2, the
  loop directive, so every other line is the same for all \<open>n\<close>; and the document written
  to \<^verbatim>\<open>input.conf\<close> is \<open>INPUT_CONF\<close> whatever \<open>n\<close> is.
\<close>
theorem settings_document_by_video_count:
  "create_temp_config_dir n e s = (d, s') \<Longrightarrow>
     files s' (d @ ''/mpv.conf'') = Some (adjust_mpv_conf n)
     \<and> files s' (d @ ''/input.conf'') = Some INPUT_CONF
     \<and> (sublist ''loop=inf'' (adjust_mpv_conf n) \<longleftrightarrow> n = 1)
     \<and> (sublist ''loop-playlist=inf'' (adjust_mpv_conf n) \<longleftrightarrow> n \<noteq> 1)
     \<and> split_lines (adjust_mpv_conf n) =
         (split_lines MPV_CONF)[2 := (if n = 1 then ''loop=inf'' else ''loop-playlist=inf'')]"
proof -
  assume r: "create_temp_config_dir n e s = (d, s')"
  have f: "files s' (d @ ''/mpv.conf'') = Some (adjust_mpv_conf n)"
       "files s' (d @ ''/input.conf'') = Some INPUT_CONF"
    using r unfolding create_temp_config_dir_spec by auto
  show ?thesis
  proof (cases "n = 1")
    case True
    with f show ?thesis
      using conf_one_has_loop conf_one_no_playlist conf_one_lines
      by (simp add: adjust_mpv_conf_def)
  next
    case False
    with f show ?thesis
      using conf_many_no_loop conf_many_has_playlist conf_many_lines
      by (simp add: adjust_mpv_conf_def)
  qed
qed

text \<open>
  Claim C4. With \<open>k\<close> missing files in the list, \<^verbatim>\<open>parse_arguments\<close> emits exactly
  \<open>min k 3\<close> notifications, each \<^verbatim>\<open>File not found: <path>\<close> at normal urgency, for the
  first three missing files in the order of the list, and nothing for the later ones;
  it returns the list filtered to the paths that exist, in the same order. This is
  what every call that returns has done, and a call returns whenever \<^verbatim>\<open>notify-send\<close>
  can be started.
\<close>
theorem parse_arguments_notifies_at_most_three:
  "(parse_arguments cfg a e s = Inr (a', valid, s') \<longrightarrow>
     valid = filter (path_exists s) (working_list cfg a)
     \<and> trace s' = trace s @ map not_found (take 3 (filter (\<lambda>p. \<not> path_exists s p) (working_list cfg a)))
     \<and> length (trace s') = length (trace s) + min (length (filter (\<lambda>p. \<not> path_exists s p) (working_list cfg a))) 3
     \<and> dirs s' = dirs s \<and> files s' = files s \<and> a' = a)
   \<and> (notify_send_runs e \<longrightarrow> (\<exists>r. parse_arguments cfg a e s = Inr r))"
proof -
  have 1: "parse_arguments cfg a e s = Inr (a', valid, s') \<longrightarrow>
     valid = filter (path_exists s) (working_list cfg a)
     \<and> trace s' = trace s @ map not_found (take 3 (filter (\<lambda>p. \<not> path_exists s p) (working_list cfg a)))
     \<and> length (trace s') = length (trace s) + min (length (filter (\<lambda>p. \<not> path_exists s p) (working_list cfg a))) 3
     \<and> dirs s' = dirs s \<and> files s' = files s \<and> a' = a"
  proof
    assume r: "parse_arguments cfg a e s = Inr (a', valid, s')"
    from parse_arguments_returned(1-3) [OF r]
    show "valid = filter (path_exists s) (working_list cfg a)
     \<and> trace s' = trace s @ map not_found (take 3 (filter (\<lambda>p. \<not> path_exists s p) (working_list cfg a)))
     \<and> length (trace s') = length (trace s) + min (length (filter (\<lambda>p. \<not> path_exists s p) (working_list cfg a))) 3
     \<and> dirs s' = dirs s \<and> files s' = files s \<and> a' = a"
      by simp
  qed
  have 2: "notify_send_runs e \<longrightarrow> (\<exists>r. parse_arguments cfg a e s = Inr r)"
    unfolding parse_arguments_spec by simp
  from 1 2 show ?thesis by (rule conjI)
qed

theorem parse_arguments_notifies_at_most_three_witness:
  "parse_arguments default_config
      \<lparr>videos = [''b.mp4'', ''m1'', ''/videos/a.mp4'', ''m2'', ''m3'', ''m4''], dry_run = False\<rparr>
      w_env w_state
    = Inr (\<lparr>videos = [''b.mp4'', ''m1'', ''/videos/a.mp4'', ''m2'', ''m3'', ''m4''], dry_run = False\<rparr>,
       [''b.mp4'', ''/videos/a.mp4''],
       w_state\<lparr>trace := [not_found ''m1'', not_found ''m2'', not_found ''m3'']\<rparr>)
   \<and> length [not_found ''m1'', not_found ''m2'', not_found ''m3'']
       = min (length [''m1'', ''m2'', ''m3'', ''m4'']) 3"
proof -
  let ?a = "\<lparr>videos = [''b.mp4'', ''m1'', ''/videos/a.mp4'', ''m2'', ''m3'', ''m4''], dry_run = False\<rparr>"
  have "notify_send_runs w_env" by (simp add: w_env_def)
  then obtain a' valid s' where r: "parse_arguments default_config ?a w_env w_state = Inr (a', valid, s')"
    unfolding parse_arguments_spec by simp
  have wl: "working_list default_config ?a = [''b.mp4'', ''m1'', ''/videos/a.mp4'', ''m2'', ''m3'', ''m4'']"
    by (simp add: working_list_def)
  from parse_arguments_notifies_at_most_three [THEN conjunct1, THEN mp, OF r]
  have "valid = [''b.mp4'', ''/videos/a.mp4'']"
       "trace s' = [not_found ''m1'', not_found ''m2'', not_found ''m3'']"
       "dirs s' = dirs w_state" "files s' = files w_state" "a' = ?a"
    unfolding wl by (simp_all add: path_exists_def w_state_def)
  moreover have "processes s' = processes w_state" "specials s' = specials w_state"
    using parse_arguments_returned(3) [OF r] by simp_all
  ultimately have "s' = w_state\<lparr>trace := [not_found ''m1'', not_found ''m2'', not_found ''m3'']\<rparr>"
    by (simp add: w_state_def)
  with r \<open>valid = _\<close> \<open>a' = _\<close> show ?thesis by simp
qed

text \<open>
  Claim C7. Without positional arguments the list returned is \<^verbatim>\<open>VIDEO_PATH\<close> filtered
  to the paths that exist; with positional arguments \<^verbatim>\<open>VIDEO_PATH\<close> plays no role,
  whatever the call does. The call returns whenever \<^verbatim>\<open>notify-send\<close> can be started.
\<close>
theorem fallback_only_without_candidates:
  "(videos a = [] \<longrightarrow>
      (parse_arguments cfg a e s = Inr (a', valid, s') \<longrightarrow>
         valid = filter (path_exists s) (VIDEO_PATH cfg)))
   \<and> (videos a \<noteq> [] \<longrightarrow>
      (parse_arguments cfg a e s = Inr (a', valid, s') \<longrightarrow>
         valid = filter (path_exists s) (videos a))
      \<and> parse_arguments (cfg\<lparr>VIDEO_PATH := fallback\<rparr>) a e s = parse_arguments cfg a e s)
   \<and> (notify_send_runs e \<longrightarrow> (\<exists>r. parse_arguments cfg a e s = Inr r))"
proof -
  have 1: "valid = filter (path_exists s) (working_list cfg a)"
    if "parse_arguments cfg a e s = Inr (a', valid, s')"
    using that by (rule parse_arguments_returned(2))
  have 2: "parse_arguments (cfg\<lparr>VIDEO_PATH := fallback\<rparr>) a e s = parse_arguments cfg a e s"
    if "videos a \<noteq> []"
    using that by (simp add: parse_arguments_def)
  have 3: "\<exists>r. parse_arguments cfg a e s = Inr r" if "notify_send_runs e"
    using that unfolding parse_arguments_spec by simp
  from 1 2 3 show ?thesis by (auto simp: working_list_def)
qed

theorem fallback_only_without_candidates_witness:
  "parse_arguments \<lparr>DISPLAYS = [0], VIDEO_PATH = [''gone'', ''/videos/a.mp4'']\<rparr>
      \<lparr>videos = [], dry_run = False\<rparr> w_env w_state
     = Inr (\<lparr>videos = [], dry_run = False\<rparr>, [''/videos/a.mp4''],
            w_state\<lparr>trace := [not_found ''gone'']\<rparr>)
   \<and> parse_arguments \<lparr>DISPLAYS = [0], VIDEO_PATH = [''gone'', ''/videos/a.mp4'']\<rparr>
      \<lparr>videos = [''b.mp4''], dry_run = False\<rparr> w_env w_state
     = Inr (\<lparr>videos = [''b.mp4''], dry_run = False\<rparr>, [''b.mp4''], w_state)
   \<and> filter (path_exists w_state) [''gone'', ''/videos/a.mp4''] = [''/videos/a.mp4'']"
proof -
  let ?cfg = "\<lparr>DISPLAYS = [0], VIDEO_PATH = [''gone'', ''/videos/a.mp4'']\<rparr>"
  have r1: "parse_arguments ?cfg \<lparr>videos = [], dry_run = False\<rparr> w_env w_state
     = Inr (\<lparr>videos = [], dry_run = False\<rparr>, [''/videos/a.mp4''],
            w_state\<lparr>trace := [not_found ''gone'']\<rparr>)"
    by (simp add: parse_arguments_spec working_list_def path_exists_def w_state_def w_env_def)
  have r2: "parse_arguments ?cfg \<lparr>videos = [''b.mp4''], dry_run = False\<rparr> w_env w_state
     = Inr (\<lparr>videos = [''b.mp4''], dry_run = False\<rparr>, [''b.mp4''], w_state)"
    by (simp add: parse_arguments_spec working_list_def path_exists_def w_state_def w_env_def)
  from fallback_only_without_candidates
          [of "\<lparr>videos = [], dry_run = False\<rparr>" ?cfg w_env w_state
              "\<lparr>videos = [], dry_run = False\<rparr>" "[''/videos/a.mp4'']"
              "w_state\<lparr>trace := [not_found ''gone'']\<rparr>"] r1
  have "[''/videos/a.mp4''] = filter (path_exists w_state) [''gone'', ''/videos/a.mp4'']"
    by simp
  with r1 r2 show ?thesis by simp
qed

lemma not_found_inj: "not_found p = not_found q \<longleftrightarrow> p = q"
  by (simp add: not_found_def)

lemma notify_urgent:
  "send_notification ''No videos to play'' True e s =
     (if notify_send_runs e then (Returned, emit urgent_note s)
      else (Raised FileNotFoundError, emit urgent_note_raised s))"
  by (simp add: send_notification_def subprocess_run_def urgent_note_def urgent_note_raised_def)

lemma main_nothing_to_play:
  assumes "parse_arguments cfg a e s0 = Inr (a', [], s1)"
  shows "main cfg a e s0 =
     (if notify_send_runs e
      then Some (Returned,
             s0\<lparr>trace := trace s0
                  @ map not_found (take 3 (filter (\<lambda>p. \<not> path_exists s0 p) (working_list cfg a)))
                  @ [urgent_note, Print ''No videos to play'']\<rparr>)
      else Some (Raised FileNotFoundError, s0\<lparr>trace := trace s0 @ [urgent_note_raised]\<rparr>))"
proof -
  note r = parse_arguments_returned [OF assms]
  have m: "main cfg a e s0 =
     (case send_notification ''No videos to play'' True e s1 of
               (Raised x, s2) \<Rightarrow> Some (Raised x, s2)
             | (Returned, s2) \<Rightarrow> Some (Returned, print ''No videos to play'' s2))"
    by (simp add: main_def assms)
  show ?thesis
  proof (cases "notify_send_runs e")
    case True
    then show ?thesis
      unfolding m notify_urgent by (simp add: r(3) print_def emit_def)
  next
    case False
    with r(4) have "filter (\<lambda>p. \<not> path_exists s0 p) (working_list cfg a) = []" by simp
    with False show ?thesis
      unfolding m notify_urgent by (simp add: r(3) emit_def)
  qed
qed

text \<open>
  Claim C6, as amended. When no video is left and \<^verbatim>\<open>notify-send\<close> can be started,
  \<^verbatim>\<open>main\<close> sends one critical \<^verbatim>\<open>No videos to play\<close> notification, prints the same line,
  and returns (exit status 0) with no directory created, no file written and no process
  started. When \<^verbatim>\<open>notify-send\<close> cannot be started, the call raises before the line is
  printed: \<^verbatim>\<open>main\<close> ends with \<^verbatim>\<open>FileNotFoundError\<close> (exit status 1), nothing is
  printed, and still no directory, file or process is created.
\<close>
theorem nothing_to_play:
  "parse_arguments cfg a e s0 = Inr (a', [], s1) \<Longrightarrow>
     (notify_send_runs e \<longrightarrow>
        (\<exists>s. main cfg a e s0 = Some (Returned, s)
           \<and> exit_status Returned = 0
           \<and> trace s = trace s0
                @ map not_found (take 3 (filter (\<lambda>p. \<not> path_exists s0 p) (working_list cfg a)))
                @ [urgent_note, Print ''No videos to play'']
           \<and> dirs s = dirs s0 \<and> files s = files s0 \<and> specials s = specials s0
           \<and> processes s = processes s0))
     \<and> (\<not> notify_send_runs e \<longrightarrow>
        (\<exists>s. main cfg a e s0 = Some (Raised FileNotFoundError, s)
           \<and> exit_status (Raised FileNotFoundError) = 1
           \<and> trace s = trace s0 @ [urgent_note_raised]
           \<and> dirs s = dirs s0 \<and> files s = files s0 \<and> specials s = specials s0
           \<and> processes s = processes s0))"
proof -
  assume r: "parse_arguments cfg a e s0 = Inr (a', [], s1)"
  show ?thesis
    unfolding main_nothing_to_play [OF r] by simp
qed

theorem nothing_to_play_witness:
  "main default_config \<lparr>videos = [''m1''], dry_run = False\<rparr> w_env w_state
     = Some (Returned, w_state\<lparr>trace := [not_found ''m1'', urgent_note, Print ''No videos to play'']\<rparr>)
   \<and> main default_config \<lparr>videos = [], dry_run = False\<rparr> w_env_no_notifier w_state
     = Some (Raised FileNotFoundError, w_state\<lparr>trace := [urgent_note_raised]\<rparr>)"
proof -
  let ?a = "\<lparr>videos = [''m1''], dry_run = False\<rparr>"
  let ?b = "\<lparr>videos = [], dry_run = False\<rparr>"
  have n: "notify_send_runs w_env" "\<not> notify_send_runs w_env_no_notifier"
    by (simp_all add: w_env_def w_env_no_notifier_def)
  have r: "parse_arguments default_config ?a w_env w_state = Inr (?a, [], w_state\<lparr>trace := [not_found ''m1'']\<rparr>)"
    by (simp add: parse_arguments_spec working_list_def path_exists_def w_state_def w_env_def)
  from nothing_to_play [OF r, THEN conjunct1, THEN mp, OF n(1)] obtain s where
    m: "main default_config ?a w_env w_state = Some (Returned, s)"
    and t: "trace s = trace w_state @ map not_found (take 3 (filter (\<lambda>p. \<not> path_exists w_state p) (working_list default_config ?a))) @ [urgent_note, Print ''No videos to play'']"
    and o: "dirs s = dirs w_state" "files s = files w_state" "specials s = specials w_state"
      "processes s = processes w_state"
    by (elim exE conjE)
  from t have "trace s = [not_found ''m1'', urgent_note, Print ''No videos to play'']"
    by (simp add: working_list_def path_exists_def w_state_def)
  with o have s: "s = w_state\<lparr>trace := [not_found ''m1'', urgent_note, Print ''No videos to play'']\<rparr>"
    by (simp add: w_state_def)
  have r': "parse_arguments default_config ?b w_env_no_notifier w_state = Inr (?b, [], w_state)"
    by (simp add: parse_arguments_spec working_list_def default_config_def w_state_def)
  from nothing_to_play [OF r', THEN conjunct2, THEN mp, OF n(2)] obtain s' where
    m': "main default_config ?b w_env_no_notifier w_state = Some (Raised FileNotFoundError, s')"
    and t': "trace s' = trace w_state @ [urgent_note_raised]"
    and o': "dirs s' = dirs w_state" "files s' = files w_state" "specials s' = specials w_state"
      "processes s' = processes w_state"
    by (elim exE conjE)
  from t' o' have s': "s' = w_state\<lparr>trace := [urgent_note_raised]\<rparr>"
    by (simp add: w_state_def)
  from m m' s s' show ?thesis by simp
qed

theorem nothing_to_play_counterexample:
  "parse_arguments default_config \<lparr>videos = [], dry_run = False\<rparr> w_env_no_notifier w_state
     = Inr (\<lparr>videos = [], dry_run = False\<rparr>, [], w_state)
   \<and> main default_config \<lparr>videos = [], dry_run = False\<rparr> w_env_no_notifier w_state \<noteq> None
   \<and> fst (the (main default_config \<lparr>videos = [], dry_run = False\<rparr> w_env_no_notifier w_state))
       = Raised FileNotFoundError
   \<and> exit_status (fst (the (main default_config \<lparr>videos = [], dry_run = False\<rparr>
                                  w_env_no_notifier w_state))) = 1
   \<and> trace (snd (the (main default_config \<lparr>videos = [], dry_run = False\<rparr>
                           w_env_no_notifier w_state)))
       = [RunRaised [''notify-send'', ''-a'', ''MPVScreensaver'', ''-u'', ''critical'',
                     ''No videos to play'']]"
proof -
  let ?b = "\<lparr>videos = [], dry_run = False\<rparr>"
  have r: "parse_arguments default_config ?b w_env_no_notifier w_state = Inr (?b, [], w_state)"
    by (simp add: parse_arguments_spec working_list_def default_config_def w_state_def)
  have n: "\<not> notify_send_runs w_env_no_notifier" by (simp add: w_env_no_notifier_def)
  have "main default_config ?b w_env_no_notifier w_state
        = Some (Raised FileNotFoundError, w_state\<lparr>trace := trace w_state @ [urgent_note_raised]\<rparr>)"
    unfolding main_nothing_to_play [OF r] using n by simp
  with r show ?thesis by (simp add: urgent_note_raised_def w_state_def)
qed

subsection \<open>The loop over the displays\<close>

lemma spawn_loop_dry:
  "spawn_loop e True d vl ds s =
     (Returned, s\<lparr>trace := trace s @ concat (map (\<lambda>(i, display). dry_run_prints d vl display) ds)\<rparr>)"
proof (induction ds arbitrary: s)
  case Nil
  show ?case by simp
next
  case (Cons x ds)
  obtain i display where x: "x = (i, display)" by (cases x)
  show ?case
    unfolding x spawn_loop.simps Let_def
    by (simp add: Cons.IH print_def emit_def dry_run_prints_def mpv_cmd_def)
qed

lemma concat_map_enumerate:
  "concat (map (\<lambda>(i, x). f x) (enumerate n xs)) = concat (map f xs)"
  by (induction xs arbitrary: n) simp_all

lemma spawn_step:
  "popen_result e i = Some c \<Longrightarrow> i = length (processes s) \<Longrightarrow>
     spawn_loop e False d vl ((i, display) # rest) s =
       spawn_loop e False d vl rest
         (s\<lparr>processes := processes s @ [spawned e d vl (i, display)],
            trace := trace s @ launch_events d vl (i, display)\<rparr>)"
  by (simp add: Let_def print_def emit_def spawned_def launch_events_def)

lemma spawn_loop_all:
  "\<forall>i. length (processes s) \<le> i \<and> i < length (processes s) + length xs \<longrightarrow> popen_result e i \<noteq> None \<Longrightarrow>
     spawn_loop e False d vl (enumerate (length (processes s)) xs) s =
       (Returned,
        s\<lparr>processes := processes s @ map (spawned e d vl) (enumerate (length (processes s)) xs),
          trace := trace s @ concat (map (launch_events d vl) (enumerate (length (processes s)) xs))\<rparr>)"
proof (induction xs arbitrary: s)
  case Nil
  show ?case by simp
next
  case (Cons x xs)
  let ?n = "length (processes s)"
  let ?s = "s\<lparr>processes := processes s @ [spawned e d vl (?n, x)],
               trace := trace s @ launch_events d vl (?n, x)\<rparr>"
  from Cons.prems obtain c where c: "popen_result e ?n = Some c" by fastforce
  have len: "length (processes ?s) = Suc ?n" by simp
  have "\<forall>i. length (processes ?s) \<le> i \<and> i < length (processes ?s) + length xs \<longrightarrow> popen_result e i \<noteq> None"
    using Cons.prems by simp
  from Cons.IH [OF this]
  show ?case
    unfolding enumerate_simps spawn_step [OF c refl] len by simp
qed

lemma spawn_loop_fails:
  "k < length xs \<Longrightarrow> popen_result e (length (processes s) + k) = None \<Longrightarrow>
   \<forall>i<k. popen_result e (length (processes s) + i) \<noteq> None \<Longrightarrow>
     spawn_loop e False d vl (enumerate (length (processes s)) xs) s =
       (Raised OSError,
        s\<lparr>processes := processes s @ map (spawned e d vl) (enumerate (length (processes s)) (take k xs)),
          trace := trace s @ concat (map (launch_events d vl) (enumerate (length (processes s)) (take k xs)))
                     @ [PopenRaised (mpv_cmd d (xs ! k) vl)]\<rparr>)"
proof (induction xs arbitrary: s k)
  case Nil
  then show ?case by simp
next
  case (Cons x xs)
  let ?n = "length (processes s)"
  show ?case
  proof (cases k)
    case 0
    with Cons.prems show ?thesis
      by (simp add: Let_def emit_def)
  next
    case (Suc j)
    let ?s = "s\<lparr>processes := processes s @ [spawned e d vl (?n, x)],
                 trace := trace s @ launch_events d vl (?n, x)\<rparr>"
    from Cons.prems(3) Suc have "popen_result e (?n + 0) \<noteq> None" by blast
    then obtain c where c: "popen_result e ?n = Some c" by auto
    have len: "length (processes ?s) = Suc ?n" by simp
    have j: "j < length xs" using Cons.prems(1) Suc by simp
    have f: "popen_result e (length (processes ?s) + j) = None"
      using Cons.prems(2) Suc by simp
    have a: "\<forall>i<j. popen_result e (length (processes ?s) + i) \<noteq> None"
    proof (intro allI impI)
      fix i assume "i < j"
      then have "Suc i < k" using Suc by simp
      with Cons.prems(3) have "popen_result e (?n + Suc i) \<noteq> None" by blast
      then show "popen_result e (length (processes ?s) + i) \<noteq> None" by simp
    qed
    from Cons.IH [OF j f a]
    show ?thesis
      unfolding enumerate_simps spawn_step [OF c refl] len Suc by simp
  qed
qed

subsection \<open>Dry runs\<close>

lemma parse_arguments_args: "parse_arguments cfg a e s = Inr (a', vl, s1) \<Longrightarrow> a' = a"
  by (rule parse_arguments_returned(1))

lemma main_unfold:
  assumes "parse_arguments cfg a e s0 = Inr (a', vl, s1)" and "vl \<noteq> []"
  shows "main cfg a e s0 =
     (case spawn_loop e (dry_run a) (config_dir_of e) vl (enumerate 0 (DISPLAYS cfg))
             (after_setup e (length vl) s1) of
        (Raised x, s4) \<Rightarrow> Some (Raised x, s4)
      | (Returned, s4) \<Rightarrow>
          (case (if processes s4 \<noteq> [] then try_block e s4 else Some s4) of
             None \<Rightarrow> None
           | Some s5 \<Rightarrow> Some (Returned, rmtree (config_dir_of e) s5)))"
proof -
  have a: "a' = a" using assms(1) by (rule parse_arguments_args)
  have s: "(print (''Temporary config directory: '' @ config_dir_of e)
            (snd (create_temp_config_dir (int (length vl)) e s1)))\<lparr>processes := []\<rparr>
           = after_setup e (length vl) s1"
    by (simp add: create_temp_config_dir_spec after_setup_def setup_events_def config_dir_of_def
          print_def emit_def)
  have d: "fst (create_temp_config_dir (int (length vl)) e s1) = config_dir_of e"
    by (simp add: create_temp_config_dir_spec config_dir_of_def)
  obtain cd s2 where c: "create_temp_config_dir (int (length vl)) e s1 = (cd, s2)"
    by (cases "create_temp_config_dir (int (length vl)) e s1")
  from d s c have cd: "cd = config_dir_of e"
    and s2: "(print (''Temporary config directory: '' @ config_dir_of e) s2)\<lparr>processes := []\<rparr>
               = after_setup e (length vl) s1"
    by simp_all
  show ?thesis
    unfolding main_def assms(1) a sum.case prod.case c Let_def cd s2
    using assms(2) by simp
qed

lemma main_dry_run:
  assumes "parse_arguments cfg a e s0 = Inr (a', vl, s1)" and "vl \<noteq> []" and "dry_run a"
  shows "main cfg a e s0 =
     Some (Returned,
       rmtree (config_dir_of e)
         ((after_setup e (length vl) s1)
            \<lparr>trace := trace s1 @ setup_events e (length vl)
                 @ concat (map (dry_run_prints (config_dir_of e) vl) (DISPLAYS cfg))\<rparr>))"
  unfolding main_unfold [OF assms(1,2)] using assms(3)
  by (simp add: spawn_loop_dry concat_map_enumerate after_setup_def)

lemma rmtree_gone: "d \<notin> dirs (rmtree d s)" "files (rmtree d s) (d @ ''/'' @ f) = None"
  by (simp_all add: rmtree_def emit_def below_def)

lemma rmtree_trace: "trace (rmtree d s) = trace s @ [Rmtree d]" "processes (rmtree d s) = processes s"
  by (simp_all add: rmtree_def emit_def)

text \<open>
  Claim C8. In a dry run with at least one video no process is started, and for each
  display, in the configured order, the command is printed: \<^verbatim>\<open>mpv\<close>, the
  \<^verbatim>\<open>--config-dir\<close> flag, the \<^verbatim>\<open>--fs-screen\<close> flag and all the videos.
\<close>
theorem dry_run_prints_commands:
  "parse_arguments cfg a e s0 = Inr (a', vl, s1) \<Longrightarrow> vl \<noteq> [] \<Longrightarrow> dry_run a \<Longrightarrow>
     (\<exists>s. main cfg a e s0 = Some (Returned, s)
        \<and> processes s = []
        \<and> trace s = trace s1 @ setup_events e (length vl)
             @ concat (map (\<lambda>display.
                  [Print (''Would launch mpv for display '' @ str_int display @ '' with ''
                            @ str_nat (length vl) @ '' videos''),
                   Print (''Command: '' @ join_str '' ''
                            ([''mpv'', ''--config-dir='' @ config_dir_of e,
                              ''--fs-screen='' @ str_int display] @ vl))]) (DISPLAYS cfg))
             @ [Rmtree (config_dir_of e)]
        \<and> (\<forall>cmd h. Popen cmd h \<notin> set (drop (length (trace s1)) (trace s))))"
proof -
  assume r: "parse_arguments cfg a e s0 = Inr (a', vl, s1)" and v: "vl \<noteq> []" and dr: "dry_run a"
  let ?s = "rmtree (config_dir_of e)
         ((after_setup e (length vl) s1)
            \<lparr>trace := trace s1 @ setup_events e (length vl)
                 @ concat (map (dry_run_prints (config_dir_of e) vl) (DISPLAYS cfg))\<rparr>)"
  have m: "main cfg a e s0 = Some (Returned, ?s)" by (rule main_dry_run [OF r v dr])
  have p: "processes ?s = []" by (simp add: rmtree_trace after_setup_def)
  have dp: "dry_run_prints (config_dir_of e) vl = (\<lambda>display.
                  [Print (''Would launch mpv for display '' @ str_int display @ '' with ''
                            @ str_nat (length vl) @ '' videos''),
                   Print (''Command: '' @ join_str '' ''
                            ([''mpv'', ''--config-dir='' @ config_dir_of e,
                              ''--fs-screen='' @ str_int display] @ vl))])"
    by (rule ext) (simp add: dry_run_prints_def)
  have t: "trace ?s = trace s1 @ setup_events e (length vl)
             @ concat (map (dry_run_prints (config_dir_of e) vl) (DISPLAYS cfg))
             @ [Rmtree (config_dir_of e)]"
    by (simp add: rmtree_trace)
  have n1: "Popen cmd h \<notin> set (setup_events e (length vl))" for cmd h
    by (simp add: setup_events_def)
  have n2: "Popen cmd h \<notin> set (dry_run_prints (config_dir_of e) vl display)" for cmd h display
    by (simp add: dry_run_prints_def)
  have n: "\<forall>cmd h. Popen cmd h \<notin> set (drop (length (trace s1)) (trace ?s))"
    unfolding t using n1 n2 by simp
  show ?thesis
    apply (rule exI [of _ ?s])
    apply (intro conjI)
       apply (rule m)
      apply (rule p)
     apply (subst t, subst dp, rule refl)
    apply (rule n)
    done
qed

lemma str_small [simp]: "str_int 0 = ''0''" "str_int 1 = ''1''" "str_int 2 = ''2''" "str_nat (Suc 0) = ''1''"
  by (simp_all add: str_int_def digit_char_def)

lemma w_parse:
  "parse_arguments cfg \<lparr>videos = [''b.mp4''], dry_run = dr\<rparr> e w_state
     = Inr (\<lparr>videos = [''b.mp4''], dry_run = dr\<rparr>, [''b.mp4''], w_state)"
  by (simp add: parse_arguments_spec working_list_def path_exists_def w_state_def)

theorem settings_document_by_video_count_witness:
  "sublist ''loop=inf'' (adjust_mpv_conf 1)
   \<and> \<not> sublist ''loop-playlist=inf'' (adjust_mpv_conf 1)
   \<and> split_lines (adjust_mpv_conf 1) = (split_lines MPV_CONF)[2 := ''loop=inf'']
   \<and> files (snd (create_temp_config_dir 1 w_env w_state))
        (fst (create_temp_config_dir 1 w_env w_state) @ ''/input.conf'') = Some INPUT_CONF
   \<and> \<not> sublist ''loop=inf'' (adjust_mpv_conf 2)
   \<and> sublist ''loop-playlist=inf'' (adjust_mpv_conf 2)
   \<and> split_lines (adjust_mpv_conf 2) = (split_lines MPV_CONF)[2 := ''loop-playlist=inf'']"
  using settings_document_by_video_count [OF prod.collapse [symmetric], of 1 w_env w_state]
        settings_document_by_video_count [OF prod.collapse [symmetric], of 2 w_env w_state]
  by simp

theorem dry_run_prints_commands_witness:
  "(case main w_config \<lparr>videos = [''b.mp4''], dry_run = True\<rparr> w_env w_state of
      None \<Rightarrow> False
    | Some (r, s) \<Rightarrow>
        r = Returned \<and> processes s = []
        \<and> trace s =
            [Mkdtemp ''/tmp/mpvconfig_k3x9'',
             WriteText ''/tmp/mpvconfig_k3x9/mpv.conf'' (adjust_mpv_conf 1),
             WriteText ''/tmp/mpvconfig_k3x9/input.conf'' INPUT_CONF,
             Print ''Temporary config directory: /tmp/mpvconfig_k3x9'',
             Print ''Would launch mpv for display 0 with 1 videos'',
             Print ''Command: mpv --config-dir=/tmp/mpvconfig_k3x9 --fs-screen=0 b.mp4'',
             Print ''Would launch mpv for display 1 with 1 videos'',
             Print ''Command: mpv --config-dir=/tmp/mpvconfig_k3x9 --fs-screen=1 b.mp4'',
             Rmtree ''/tmp/mpvconfig_k3x9''])"
proof -
  have v: "[''b.mp4''] \<noteq> []" by simp
  have d: "dry_run \<lparr>videos = [''b.mp4''], dry_run = True\<rparr>" by simp
  have c: "config_dir_of w_env = ''/tmp/mpvconfig_k3x9''"
    by (simp add: config_dir_of_def w_env_def)
  from dry_run_prints_commands [OF w_parse [where cfg = w_config] v d, where e = w_env]
  show ?thesis
    unfolding c by (auto simp: setup_events_def c w_config_def w_state_def digit_char_def)
qed

text \<open>
  Claim C9. A dry run with at least one video still creates the temporary directory,
  writes both documents into it and removes it before \<^verbatim>\<open>main\<close> returns, although no
  process is started.
\<close>
theorem dry_run_still_writes_and_removes:
  "parse_arguments cfg a e s0 = Inr (a', vl, s1) \<Longrightarrow> vl \<noteq> [] \<Longrightarrow> dry_run a \<Longrightarrow>
     (\<exists>s prints. main cfg a e s0 = Some (Returned, s)
        \<and> trace s = trace s1
             @ [Mkdtemp (config_dir_of e),
                WriteText (config_dir_of e @ ''/mpv.conf'') (adjust_mpv_conf (int (length vl))),
                WriteText (config_dir_of e @ ''/input.conf'') INPUT_CONF]
             @ map Print prints
             @ [Rmtree (config_dir_of e)]
        \<and> config_dir_of e \<notin> dirs s
        \<and> files s (config_dir_of e @ ''/mpv.conf'') = None
        \<and> files s (config_dir_of e @ ''/input.conf'') = None
        \<and> processes s = [])
     \<and> fst (create_temp_config_dir (int (length vl)) e s1) = config_dir_of e
     \<and> config_dir_of e \<in> dirs (snd (create_temp_config_dir (int (length vl)) e s1))
     \<and> files (snd (create_temp_config_dir (int (length vl)) e s1)) (config_dir_of e @ ''/mpv.conf'')
         = Some (adjust_mpv_conf (int (length vl)))
     \<and> files (snd (create_temp_config_dir (int (length vl)) e s1)) (config_dir_of e @ ''/input.conf'')
         = Some INPUT_CONF"
proof -
  assume r: "parse_arguments cfg a e s0 = Inr (a', vl, s1)" and v: "vl \<noteq> []" and dr: "dry_run a"
  let ?d = "config_dir_of e"
  let ?s = "rmtree ?d
         ((after_setup e (length vl) s1)
            \<lparr>trace := trace s1 @ setup_events e (length vl)
                 @ concat (map (dry_run_prints ?d vl) (DISPLAYS cfg))\<rparr>)"
  let ?prints = "(''Temporary config directory: '' @ ?d)
       # concat (map (\<lambda>display.
           [''Would launch mpv for display '' @ str_int display @ '' with ''
               @ str_nat (length vl) @ '' videos'',
            ''Command: '' @ join_str '' ''
               ([''mpv'', ''--config-dir='' @ ?d, ''--fs-screen='' @ str_int display] @ vl)])
           (DISPLAYS cfg))"
  have m: "main cfg a e s0 = Some (Returned, ?s)" by (rule main_dry_run [OF r v dr])
  have pr: "concat (map (dry_run_prints ?d vl) xs)
       = map Print (concat (map (\<lambda>display.
           [''Would launch mpv for display '' @ str_int display @ '' with ''
               @ str_nat (length vl) @ '' videos'',
            ''Command: '' @ join_str '' ''
               ([''mpv'', ''--config-dir='' @ ?d, ''--fs-screen='' @ str_int display] @ vl)]) xs))" for xs
    by (induction xs) (simp_all add: dry_run_prints_def)
  have t: "trace ?s = trace s1
             @ [Mkdtemp ?d,
                WriteText (?d @ ''/mpv.conf'') (adjust_mpv_conf (int (length vl))),
                WriteText (?d @ ''/input.conf'') INPUT_CONF]
             @ map Print ?prints @ [Rmtree ?d]"
    by (simp add: rmtree_trace setup_events_def pr)
  have g: "?d \<notin> dirs ?s" by (rule rmtree_gone)
  have f1: "files ?s (?d @ ''/mpv.conf'') = None"
    using rmtree_gone(2) [of ?d _ "''mpv.conf''"] by simp
  have f2: "files ?s (?d @ ''/input.conf'') = None"
    using rmtree_gone(2) [of ?d _ "''input.conf''"] by simp
  have p: "processes ?s = []" by (simp add: rmtree_trace after_setup_def)
  have first: "\<exists>s prints. main cfg a e s0 = Some (Returned, s)
        \<and> trace s = trace s1
             @ [Mkdtemp ?d,
                WriteText (?d @ ''/mpv.conf'') (adjust_mpv_conf (int (length vl))),
                WriteText (?d @ ''/input.conf'') INPUT_CONF]
             @ map Print prints
             @ [Rmtree ?d]
        \<and> ?d \<notin> dirs s
        \<and> files s (?d @ ''/mpv.conf'') = None
        \<and> files s (?d @ ''/input.conf'') = None
        \<and> processes s = []"
    apply (rule exI [of _ ?s])
    apply (rule exI [of _ ?prints])
    apply (intro conjI)
         apply (rule m)
        apply (rule t)
       apply (rule g)
      apply (rule f1)
     apply (rule f2)
    apply (rule p)
    done
  have second: "fst (create_temp_config_dir (int (length vl)) e s1) = ?d
     \<and> ?d \<in> dirs (snd (create_temp_config_dir (int (length vl)) e s1))
     \<and> files (snd (create_temp_config_dir (int (length vl)) e s1)) (?d @ ''/mpv.conf'')
         = Some (adjust_mpv_conf (int (length vl)))
     \<and> files (snd (create_temp_config_dir (int (length vl)) e s1)) (?d @ ''/input.conf'')
         = Some INPUT_CONF"
    by (simp add: create_temp_config_dir_spec config_dir_of_def)
  from first second show ?thesis by (rule conjI)
qed

theorem dry_run_still_writes_and_removes_witness:
  "(case main w_config \<lparr>videos = [''b.mp4''], dry_run = True\<rparr> w_env w_state of
      None \<Rightarrow> False
    | Some (r, s) \<Rightarrow>
        r = Returned \<and> ''/tmp/mpvconfig_k3x9'' \<notin> dirs s
        \<and> files s ''/tmp/mpvconfig_k3x9/mpv.conf'' = None
        \<and> take 3 (trace s) =
             [Mkdtemp ''/tmp/mpvconfig_k3x9'',
              WriteText ''/tmp/mpvconfig_k3x9/mpv.conf'' (adjust_mpv_conf 1),
              WriteText ''/tmp/mpvconfig_k3x9/input.conf'' INPUT_CONF]
        \<and> last (trace s) = Rmtree ''/tmp/mpvconfig_k3x9'')
   \<and> ''/tmp/mpvconfig_k3x9'' \<in> dirs (snd (create_temp_config_dir 1 w_env w_state))"
proof -
  have v: "[''b.mp4''] \<noteq> []" by simp
  have d: "dry_run \<lparr>videos = [''b.mp4''], dry_run = True\<rparr>" by simp
  have c: "config_dir_of w_env = ''/tmp/mpvconfig_k3x9''"
    by (simp add: config_dir_of_def w_env_def)
  from dry_run_still_writes_and_removes [OF w_parse [where cfg = w_config] v d, where e = w_env]
  show ?thesis
    unfolding c by (auto simp: w_state_def)
qed

subsection \<open>Polling\<close>

lemma poll_fst: "fst (poll now p) = (returncode_set p \<or> has_exited now p)"
  by (simp add: poll_def)

lemma poll_keeps [simp]:
  "handle (snd (poll now p)) = handle p" "life (snd (poll now p)) = life p"
  "term_sent (snd (poll now p)) = term_sent p" "argv (snd (poll now p)) = argv p"
  by (simp_all add: poll_def)

lemma poll_quiet: "\<not> fst (poll now p) \<Longrightarrow> snd (poll now p) = p"
  by (simp add: poll_def split: if_splits)

lemma poll_tidy: "tidy p \<Longrightarrow> tidy (snd (poll now p))"
  by (simp add: poll_def tidy_def)

lemma poll_again: "fst (poll now (snd (poll now p))) = fst (poll now p)"
  by (simp add: poll_def has_exited_def)

lemma poll_all_unfold:
  "poll_all now (p # ps) =
     (if fst (poll now p) then (True, snd (poll now p) # ps)
      else (fst (poll_all now ps), p # snd (poll_all now ps)))"
  using poll_quiet [of now p]
  by (cases "poll now p"; cases "poll_all now ps") auto

declare poll_all.simps(2) [simp del]

lemma poll_all_fst: "fst (poll_all now ps) = (\<exists>p\<in>set ps. fst (poll now p))"
  by (induction ps) (simp_all add: poll_all_unfold)

lemma poll_all_quiet: "\<not> fst (poll_all now ps) \<Longrightarrow> snd (poll_all now ps) = ps"
  by (induction ps) (simp_all add: poll_all_unfold split: if_splits)

lemma poll_all_handles [simp]: "map handle (snd (poll_all now ps)) = map handle ps"
  by (induction ps) (simp_all add: poll_all_unfold)

lemma poll_all_tidy: "\<forall>p\<in>set ps. tidy p \<Longrightarrow> \<forall>p\<in>set (snd (poll_all now ps)). tidy p"
  by (induction ps) (simp_all add: poll_all_unfold poll_tidy)

lemma poll_all_stoppable:
  "\<forall>p\<in>set ps. stoppable p \<Longrightarrow> \<forall>p\<in>set (snd (poll_all now ps)). stoppable p"
  by (induction ps) (simp_all add: poll_all_unfold stoppable_def)

lemma poll_all_running:
  "map handle (filter (\<lambda>p. \<not> fst (poll now p)) (snd (poll_all now ps)))
     = map handle (filter (\<lambda>p. \<not> fst (poll now p)) ps)"
  by (induction ps) (simp_all add: poll_all_unfold poll_again)

subsection \<open>The monitoring loop\<close>

lemma monitor_step:
  "monitor e t s =
     (if fst (poll_all t (processes s))
        then Some (StopIteration, t, s\<lparr>processes := snd (poll_all t (processes s))\<rparr>)
      else if interrupt_at e = Some t then Some (KeyboardInterrupt, t, s)
      else monitor e (t + 1) s)"
  by (subst monitor.simps) (auto simp: case_prod_beta poll_all_quiet)

lemma monitor_stops:
  "stops_at e (processes s) T \<Longrightarrow> t \<le> T \<Longrightarrow>
     \<exists>cause now.
        monitor e t s = Some (cause, now, s\<lparr>processes := snd (poll_all now (processes s))\<rparr>)
      \<and> t \<le> now \<and> now \<le> T
      \<and> (cause = StopIteration \<and> fst (poll_all now (processes s))
         \<or> cause = KeyboardInterrupt \<and> \<not> fst (poll_all now (processes s))
             \<and> interrupt_at e = Some now)"
proof (induction "T - t" arbitrary: t)
  case 0
  then have t: "t = T" by simp
  show ?case
  proof (cases "fst (poll_all t (processes s))")
    case True
    then show ?thesis using t by (subst monitor_step) auto
  next
    case False
    with "0.prems"(1) t have i: "interrupt_at e = Some t" by (simp add: stops_at_def)
    with False show ?thesis using t
      by (subst monitor_step) (auto simp: poll_all_quiet)
  qed
next
  case (Suc k)
  show ?case
  proof (cases "fst (poll_all t (processes s))")
    case True
    then show ?thesis using Suc.prems(2) by (subst monitor_step) auto
  next
    case quiet: False
    show ?thesis
    proof (cases "interrupt_at e = Some t")
      case True
      with quiet show ?thesis using Suc.prems(2)
        by (subst monitor_step) (auto simp: poll_all_quiet)
    next
      case False
      have "k = T - (t + 1)" "t + 1 \<le> T" using Suc.hyps(2) by simp_all
      from Suc.hyps(1) [OF this(1) Suc.prems(1) this(2)]
      obtain cause now where
        m: "monitor e (t + 1) s = Some (cause, now, s\<lparr>processes := snd (poll_all now (processes s))\<rparr>)"
        and b: "t + 1 \<le> now" "now \<le> T"
        and c: "cause = StopIteration \<and> fst (poll_all now (processes s))
         \<or> cause = KeyboardInterrupt \<and> \<not> fst (poll_all now (processes s))
             \<and> interrupt_at e = Some now"
        by blast
      have "monitor e t s = monitor e (t + 1) s"
        using quiet False by (subst monitor_step) simp
      with m b c show ?thesis by (intro exI [of _ cause] exI [of _ now]) simp
    qed
  qed
qed

subsection \<open>The finally block\<close>

lemma asked_keeps [simp]: "handle (asked now p) = handle p" "life (asked now p) = life p"
  by (simp_all add: asked_def poll_def)

lemma terminate_loop_spec:
  "terminate_loop now ps s =
     (map (asked now) ps,
      s\<lparr>trace := trace s @ map (\<lambda>p. Terminate (handle p)) (filter (\<lambda>p. \<not> fst (poll now p)) ps)\<rparr>)"
proof (induction ps arbitrary: s)
  case Nil
  show ?case by simp
next
  case (Cons p ps)
  obtain b p' where p: "poll now p = (b, p')" by (cases "poll now p")
  then have h: "handle p' = handle p" using poll_keeps(1) [of now p] by simp
  show ?case
    by (cases b) (simp_all add: p Cons.IH asked_def emit_def h)
qed

lemma wait_keeps: "wait p = Some q \<Longrightarrow> handle q = handle p \<and> life q = life p \<and> returncode_set q"
  by (auto simp: wait_def split: if_splits)

lemma wait_tidy: "wait p = Some q \<Longrightarrow> tidy p \<Longrightarrow> reaped q = 1"
  by (auto simp: wait_def tidy_def split: if_splits)

lemma wait_asked: "stoppable p \<Longrightarrow> \<exists>q. wait (asked now p) = Some q"
  by (auto simp: wait_def asked_def poll_def stoppable_def has_exited_def split: option.splits)

lemma asked_tidy: "tidy p \<Longrightarrow> tidy (asked now p)"
  by (simp add: asked_def poll_def tidy_def)

lemma wait_loop_spec:
  "\<forall>p\<in>set ps. wait p \<noteq> None \<Longrightarrow>
     wait_loop ps s =
       Some (map (\<lambda>p. the (wait p)) ps, s\<lparr>trace := trace s @ map (\<lambda>p. Wait (handle p)) ps\<rparr>)"
proof (induction ps arbitrary: s)
  case Nil
  show ?case by simp
next
  case (Cons p ps)
  from Cons.prems obtain q where q: "wait p = Some q" by auto
  from wait_keeps [OF q] have h: "handle q = handle p" by simp
  from Cons.prems have "\<forall>p\<in>set ps. wait p \<noteq> None" by simp
  from Cons.IH [OF this] show ?case by (simp add: q h emit_def)
qed

lemma finally_block_spec:
  assumes "\<forall>p\<in>set (processes s). stoppable p"
  shows "finally_block now s =
     Some (s\<lparr>processes := map (\<lambda>p. the (wait (asked now p))) (processes s),
             trace := trace s
               @ map (\<lambda>p. Terminate (handle p)) (filter (\<lambda>p. \<not> fst (poll now p)) (processes s))
               @ map (\<lambda>p. Wait (handle p)) (processes s)\<rparr>)"
proof -
  have w: "\<forall>p\<in>set (map (asked now) (processes s)). wait p \<noteq> None"
    using assms wait_asked by fastforce
  show ?thesis
    unfolding finally_block_def terminate_loop_spec prod.case wait_loop_spec [OF w]
    by (simp add: comp_def)
qed

lemma finally_block_result:
  assumes "stoppable p" and "tidy p"
  shows "returncode_set (the (wait (asked now p))) \<and> reaped (the (wait (asked now p))) = 1
         \<and> handle (the (wait (asked now p))) = handle p"
proof -
  from wait_asked [OF assms(1)] obtain q where q: "wait (asked now p) = Some q" by blast
  from wait_keeps [OF q] wait_tidy [OF q asked_tidy [OF assms(2)]]
  show ?thesis by (simp add: q)
qed

subsection \<open>main, when every player starts\<close>

lemma spawned_fresh [simp]:
  "handle (spawned e d vl (i, x)) = i"
  "life (spawned e d vl (i, x)) = the (popen_result e i)"
  "\<not> returncode_set (spawned e d vl (i, x))"
  "\<not> term_sent (spawned e d vl (i, x))"
  "reaped (spawned e d vl (i, x)) = 0"
  by (simp_all add: spawned_def new_proc_def)

lemma spawned_handles: "map handle (map (spawned e d vl) (enumerate n xs)) = [n..<n + length xs]"
proof -
  have "handle \<circ> spawned e d vl = fst" by (rule ext) (simp add: spawned_def new_proc_def split: prod.splits)
  then show ?thesis by (simp add: map_fst_enumerate)
qed

lemma spawned_running:
  "popen_result e i = Some c \<Longrightarrow>
     (\<not> fst (poll now (spawned e d vl (i, x)))) = still_running e now i"
  by (auto simp: poll_fst has_exited_def still_running_def split: option.splits)

lemma main_all_spawned:
  assumes "parse_arguments cfg a e s0 = Inr (a', vl, s1)" and "vl \<noteq> []" and "\<not> dry_run a"
    and "\<forall>i<length (DISPLAYS cfg). popen_result e i \<noteq> None"
  shows "main cfg a e s0 =
     (case (if DISPLAYS cfg \<noteq> [] then try_block e (all_spawned cfg e vl s1)
            else Some (all_spawned cfg e vl s1)) of
        None \<Rightarrow> None
      | Some s5 \<Rightarrow> Some (Returned, rmtree (config_dir_of e) s5))"
proof -
  let ?s = "after_setup e (length vl) s1"
  have p: "processes ?s = []" by (simp add: after_setup_def)
  have "\<forall>i. length (processes ?s) \<le> i \<and> i < length (processes ?s) + length (DISPLAYS cfg)
          \<longrightarrow> popen_result e i \<noteq> None"
    using assms(4) by (simp add: p)
  from spawn_loop_all [OF this, of "config_dir_of e" vl]
  have sp: "spawn_loop e False (config_dir_of e) vl (enumerate 0 (DISPLAYS cfg)) ?s
          = (Returned, all_spawned cfg e vl s1)"
    by (simp add: p all_spawned_def after_setup_def)
  have ne: "(processes (all_spawned cfg e vl s1) \<noteq> []) = (DISPLAYS cfg \<noteq> [])"
    by (simp add: all_spawned_def enumerate_eq_zip)
  show ?thesis
    unfolding main_unfold [OF assms(1,2)] using assms(3) by (simp add: sp ne)
qed

lemma try_block_spec:
  assumes "stops_at e (processes s) T" and "\<forall>p\<in>set (processes s). stoppable p"
  shows "\<exists>cause now.
      try_block e s =
        Some (s\<lparr>processes := map (\<lambda>p. the (wait (asked now p))) (snd (poll_all now (processes s))),
                trace := trace s
                  @ (if cause = KeyboardInterrupt then [Print ''Interrupted by user''] else [])
                  @ map Terminate (map handle (filter (\<lambda>p. \<not> fst (poll now p)) (processes s)))
                  @ map Wait (map handle (processes s))\<rparr>)
    \<and> (cause = StopIteration \<and> fst (poll_all now (processes s))
       \<or> cause = KeyboardInterrupt \<and> \<not> fst (poll_all now (processes s))
           \<and> interrupt_at e = Some now)
    \<and> (\<forall>u. stops_at e (processes s) u \<longrightarrow> now \<le> u)"
proof -
  from monitor_stops [OF assms(1), of 0] obtain cause now where
    m: "monitor e 0 s = Some (cause, now, s\<lparr>processes := snd (poll_all now (processes s))\<rparr>)"
    and c: "cause = StopIteration \<and> fst (poll_all now (processes s))
         \<or> cause = KeyboardInterrupt \<and> \<not> fst (poll_all now (processes s))
             \<and> interrupt_at e = Some now"
    by auto
  have least: "now \<le> u" if "stops_at e (processes s) u" for u
    using monitor_stops [OF that, of 0] m by auto
  let ?ps = "snd (poll_all now (processes s))"
  let ?s1 = "s\<lparr>processes := ?ps\<rparr>"
  let ?s2 = "if cause = KeyboardInterrupt then print ''Interrupted by user'' ?s1 else ?s1"
  have ps2: "processes ?s2 = ?ps" by (simp add: print_def emit_def)
  have st: "\<forall>p\<in>set (processes ?s2). stoppable p"
    unfolding ps2 by (rule poll_all_stoppable [OF assms(2)])
  have tr: "trace ?s2 = trace s @ (if cause = KeyboardInterrupt then [Print ''Interrupted by user''] else [])"
    by (simp add: print_def emit_def)
  have run: "map (\<lambda>p. Terminate (handle p)) (filter (\<lambda>p. \<not> fst (poll now p)) ?ps)
             = map Terminate (map handle (filter (\<lambda>p. \<not> fst (poll now p)) (processes s)))"
  proof -
    have "map (\<lambda>p. Terminate (handle p)) (filter (\<lambda>p. \<not> fst (poll now p)) ?ps)
          = map Terminate (map handle (filter (\<lambda>p. \<not> fst (poll now p)) ?ps))"
      by (simp only: map_map comp_def)
    then show ?thesis by (simp only: poll_all_running)
  qed
  have wt: "map (\<lambda>p. Wait (handle p)) ?ps = map Wait (map handle (processes s))"
  proof -
    have "map (\<lambda>p. Wait (handle p)) ?ps = map Wait (map handle ?ps)"
      by (simp only: map_map comp_def)
    then show ?thesis by (simp only: poll_all_handles)
  qed
  have "try_block e s = finally_block now ?s2"
    by (simp add: try_block_def m)
  also have "\<dots> = Some (?s2\<lparr>processes := map (\<lambda>p. the (wait (asked now p))) (processes ?s2),
             trace := trace ?s2
               @ map (\<lambda>p. Terminate (handle p)) (filter (\<lambda>p. \<not> fst (poll now p)) (processes ?s2))
               @ map (\<lambda>p. Wait (handle p)) (processes ?s2)\<rparr>)"
    by (rule finally_block_spec [OF st])
  also have "\<dots> = Some (s\<lparr>processes := map (\<lambda>p. the (wait (asked now p))) ?ps,
                trace := trace s
                  @ (if cause = KeyboardInterrupt then [Print ''Interrupted by user''] else [])
                  @ map Terminate (map handle (filter (\<lambda>p. \<not> fst (poll now p)) (processes s)))
                  @ map Wait (map handle (processes s))\<rparr>)"
    unfolding ps2 tr run wt by (simp add: print_def emit_def)
  finally show ?thesis using c least by blast
qed

subsection \<open>Teardown\<close>

lemma spawned_set:
  "p \<in> set (map (spawned e d vl) (enumerate 0 xs)) \<Longrightarrow>
     \<exists>i<length xs. p = spawned e d vl (i, xs ! i)"
  by (auto simp: in_set_enumerate_eq)

lemma spawned_poll_all:
  assumes "\<forall>i<length xs. popen_result e i \<noteq> None"
  shows "fst (poll_all now (map (spawned e d vl) (enumerate 0 xs)))
           = (\<exists>i<length xs. \<not> still_running e now i)"
proof
  assume "fst (poll_all now (map (spawned e d vl) (enumerate 0 xs)))"
  then obtain p where p: "p \<in> set (map (spawned e d vl) (enumerate 0 xs))" "fst (poll now p)"
    by (auto simp: poll_all_fst)
  from spawned_set [OF p(1)] obtain i where i: "i < length xs" "p = spawned e d vl (i, xs ! i)"
    by blast
  from assms i(1) obtain c where "popen_result e i = Some c" by auto
  from spawned_running [OF this, of now d vl "xs ! i"] p(2) i
  show "\<exists>i<length xs. \<not> still_running e now i" by auto
next
  assume "\<exists>i<length xs. \<not> still_running e now i"
  then obtain i where i: "i < length xs" "\<not> still_running e now i" by blast
  from assms i(1) obtain c where "popen_result e i = Some c" by auto
  from spawned_running [OF this, of now d vl "xs ! i"] i(2)
  have "fst (poll now (spawned e d vl (i, xs ! i)))" by simp
  moreover have "spawned e d vl (i, xs ! i) \<in> set (map (spawned e d vl) (enumerate 0 xs))"
    using i(1) by (auto simp: in_set_enumerate_eq)
  ultimately show "fst (poll_all now (map (spawned e d vl) (enumerate 0 xs)))"
    unfolding poll_all_fst by blast
qed

lemma spawned_running_handles:
  assumes "\<forall>i<length xs. popen_result e i \<noteq> None"
  shows "map handle (filter (\<lambda>p. \<not> fst (poll now p)) (map (spawned e d vl) (enumerate 0 xs)))
           = filter (still_running e now) [0..<length xs]"
proof -
  have c: "filter ((\<lambda>p. \<not> fst (poll now p)) \<circ> spawned e d vl) (enumerate 0 xs)
           = filter (still_running e now \<circ> fst) (enumerate 0 xs)"
  proof (rule filter_cong [OF refl])
    fix ix assume m: "ix \<in> set (enumerate 0 xs)"
    obtain i x where ix: "ix = (i, x)" by (cases ix)
    with m have "i < length xs" by (simp add: in_set_enumerate_eq)
    with assms obtain c where "popen_result e i = Some c" by auto
    from spawned_running [OF this, of now d vl x]
    show "((\<lambda>p. \<not> fst (poll now p)) \<circ> spawned e d vl) ix = (still_running e now \<circ> fst) ix"
      by (simp add: ix)
  qed
  have h: "handle \<circ> spawned e d vl = fst"
    by (rule ext) (simp add: spawned_def new_proc_def split: prod.splits)
  have "map handle (filter (\<lambda>p. \<not> fst (poll now p)) (map (spawned e d vl) (enumerate 0 xs)))
        = map fst (filter (still_running e now \<circ> fst) (enumerate 0 xs))"
    by (simp only: filter_map c map_map h)
  also have "\<dots> = filter (still_running e now) (map fst (enumerate 0 xs))"
    by (simp only: filter_map)
  finally show ?thesis by (simp add: map_fst_enumerate)
qed

lemma spawned_stoppable:
  "popen_result e i = Some c \<Longrightarrow> exits_at c = None \<longrightarrow> obeys_term c \<Longrightarrow>
     stoppable (spawned e d vl (i, x))"
  by (simp add: stoppable_def)

lemma spawned_tidy: "tidy (spawned e d vl (i, x))"
  by (simp add: tidy_def)

lemma main_teardown:
  "parse_arguments cfg a e s0 = Inr (a', vl, s1) \<Longrightarrow> vl \<noteq> [] \<Longrightarrow> \<not> dry_run a \<Longrightarrow> DISPLAYS cfg \<noteq> [] \<Longrightarrow>
   \<forall>i<length (DISPLAYS cfg). \<exists>c. popen_result e i = Some c \<and> (exits_at c = None \<longrightarrow> obeys_term c) \<Longrightarrow>
   interrupt_at e \<noteq> None
     \<or> (\<exists>i<length (DISPLAYS cfg). \<exists>c t. popen_result e i = Some c \<and> exits_at c = Some t) \<Longrightarrow>
   \<exists>s cause now.
      main cfg a e s0 = Some (Returned, s)
    \<and> (cause = StopIteration \<and> (\<exists>i<length (DISPLAYS cfg). \<not> still_running e now i)
       \<or> cause = KeyboardInterrupt \<and> interrupt_at e = Some now
           \<and> (\<forall>i<length (DISPLAYS cfg). still_running e now i))
    \<and> (\<forall>u<now. interrupt_at e \<noteq> Some u \<and> (\<forall>i<length (DISPLAYS cfg). still_running e u i))
    \<and> trace s = trace s1 @ setup_events e (length vl)
        @ concat (map (launch_events (config_dir_of e) vl) (enumerate 0 (DISPLAYS cfg)))
        @ (if cause = KeyboardInterrupt then [Print ''Interrupted by user''] else [])
        @ map Terminate (filter (still_running e now) [0..<length (DISPLAYS cfg)])
        @ map Wait [0..<length (DISPLAYS cfg)]
        @ [Rmtree (config_dir_of e)]
    \<and> map handle (processes s) = [0..<length (DISPLAYS cfg)]
    \<and> (\<forall>p\<in>set (processes s). returncode_set p \<and> reaped p = 1)
    \<and> config_dir_of e \<notin> dirs s"
proof -
  assume r: "parse_arguments cfg a e s0 = Inr (a', vl, s1)" and v: "vl \<noteq> []" and nd: "\<not> dry_run a"
    and ds: "DISPLAYS cfg \<noteq> []"
    and ok: "\<forall>i<length (DISPLAYS cfg). \<exists>c. popen_result e i = Some c \<and> (exits_at c = None \<longrightarrow> obeys_term c)"
    and ends: "interrupt_at e \<noteq> None
     \<or> (\<exists>i<length (DISPLAYS cfg). \<exists>c t. popen_result e i = Some c \<and> exits_at c = Some t)"
  let ?n = "length (DISPLAYS cfg)"
  let ?d = "config_dir_of e"
  let ?s4 = "all_spawned cfg e vl s1"
  let ?ps = "map (spawned e ?d vl) (enumerate 0 (DISPLAYS cfg))"
  have some: "\<forall>i<?n. popen_result e i \<noteq> None" using ok by auto
  have ps: "processes ?s4 = ?ps" by (simp add: all_spawned_def)
  have tr4: "trace ?s4 = trace s1 @ setup_events e (length vl)
        @ concat (map (launch_events ?d vl) (enumerate 0 (DISPLAYS cfg)))"
    by (simp add: all_spawned_def)
  have gone: "fst (poll_all t ?ps) = (\<exists>i<?n. \<not> still_running e t i)" for t
    by (rule spawned_poll_all [OF some])
  have stoppable: "\<forall>p\<in>set ?ps. stoppable p"
  proof
    fix p assume "p \<in> set ?ps"
    from spawned_set [OF this] obtain i where i: "i < ?n" and p: "p = spawned e ?d vl (i, DISPLAYS cfg ! i)"
      by (elim exE conjE)
    from ok [rule_format, OF i] obtain c
      where c: "popen_result e i = Some c" "exits_at c = None \<longrightarrow> obeys_term c"
      by (elim exE conjE)
    show "stoppable p" unfolding p by (rule spawned_stoppable [OF c])
  qed
  have tidy: "\<forall>p\<in>set ?ps. tidy p"
  proof
    fix p assume "p \<in> set ?ps"
    from spawned_set [OF this] obtain i where "p = spawned e ?d vl (i, DISPLAYS cfg ! i)"
      by (elim exE conjE)
    then show "tidy p" by (simp only: spawned_tidy)
  qed
  have "\<exists>T. stops_at e ?ps T"
  proof (cases "interrupt_at e")
    case (Some T)
    then show ?thesis by (auto simp: stops_at_def)
  next
    case None
    with ends obtain i c t where "i < ?n" "popen_result e i = Some c" "exits_at c = Some t" by auto
    then have "\<not> still_running e t i" by (simp add: still_running_def)
    with \<open>i < ?n\<close> have "fst (poll_all t ?ps)" unfolding gone by blast
    then show ?thesis by (auto simp: stops_at_def)
  qed
  then obtain T where T: "stops_at e (processes ?s4) T" unfolding ps by blast
  have st4: "\<forall>p\<in>set (processes ?s4). stoppable p" unfolding ps by (rule stoppable)
  from try_block_spec [OF T st4] obtain cause now where
    tb: "try_block e ?s4 =
        Some (?s4\<lparr>processes := map (\<lambda>p. the (wait (asked now p))) (snd (poll_all now (processes ?s4))),
                trace := trace ?s4
                  @ (if cause = KeyboardInterrupt then [Print ''Interrupted by user''] else [])
                  @ map Terminate (map handle (filter (\<lambda>p. \<not> fst (poll now p)) (processes ?s4)))
                  @ map Wait (map handle (processes ?s4))\<rparr>)"
    and c: "cause = StopIteration \<and> fst (poll_all now (processes ?s4))
       \<or> cause = KeyboardInterrupt \<and> \<not> fst (poll_all now (processes ?s4))
           \<and> interrupt_at e = Some now"
    and least: "\<forall>u. stops_at e (processes ?s4) u \<longrightarrow> now \<le> u"
    by (elim exE conjE) (rule that; assumption)
  let ?fin = "map (\<lambda>p. the (wait (asked now p))) (snd (poll_all now ?ps))"
  let ?tail = "(if cause = KeyboardInterrupt then [Print ''Interrupted by user''] else [])
        @ map Terminate (filter (still_running e now) [0..<?n])
        @ map Wait [0..<?n]"
  let ?s5 = "?s4\<lparr>processes := ?fin, trace := trace ?s4 @ ?tail\<rparr>"
  have hs: "map handle ?ps = [0..<?n]" using spawned_handles [of e ?d vl 0 "DISPLAYS cfg"] by simp
  have tb': "try_block e ?s4 = Some ?s5"
    unfolding tb ps hs spawned_running_handles [OF some] by simp
  let ?s = "rmtree ?d ?s5"
  have m: "main cfg a e s0 = Some (Returned, ?s)"
    unfolding main_all_spawned [OF r v nd some] using ds by (simp add: tb')
  have cause: "cause = StopIteration \<and> (\<exists>i<?n. \<not> still_running e now i)
       \<or> cause = KeyboardInterrupt \<and> interrupt_at e = Some now \<and> (\<forall>i<?n. still_running e now i)"
    using c unfolding ps gone by auto
  have before: "\<forall>u<now. interrupt_at e \<noteq> Some u \<and> (\<forall>i<?n. still_running e u i)"
  proof (intro allI impI)
    fix u assume "u < now"
    with least have "\<not> stops_at e (processes ?s4) u" by auto
    then show "interrupt_at e \<noteq> Some u \<and> (\<forall>i<?n. still_running e u i)"
      unfolding ps stops_at_def gone by auto
  qed
  have tr: "trace ?s = trace s1 @ setup_events e (length vl)
        @ concat (map (launch_events ?d vl) (enumerate 0 (DISPLAYS cfg)))
        @ (if cause = KeyboardInterrupt then [Print ''Interrupted by user''] else [])
        @ map Terminate (filter (still_running e now) [0..<?n])
        @ map Wait [0..<?n]
        @ [Rmtree ?d]"
    unfolding rmtree_trace by (simp add: tr4)
  have pf: "processes ?s = ?fin" by (simp add: rmtree_trace)
  have each: "returncode_set (the (wait (asked now p))) \<and> reaped (the (wait (asked now p))) = 1
         \<and> handle (the (wait (asked now p))) = handle p"
    if "p \<in> set (snd (poll_all now ?ps))" for p
    using that poll_all_stoppable [OF stoppable, of now] poll_all_tidy [OF tidy, of now]
    by (intro finally_block_result) auto
  have hf: "map handle ?fin = [0..<?n]"
  proof -
    have "map handle ?fin = map (\<lambda>p. handle (the (wait (asked now p)))) (snd (poll_all now ?ps))"
      by (simp only: map_map comp_def)
    also have "\<dots> = map handle (snd (poll_all now ?ps))"
      by (rule map_cong [OF refl]) (simp only: each)
    also have "\<dots> = map handle ?ps"
      by (rule poll_all_handles)
    finally show ?thesis by (simp only: hs)
  qed
  have rf: "\<forall>p\<in>set ?fin. returncode_set p \<and> reaped p = 1"
    using each by auto
  have g: "?d \<notin> dirs ?s" by (rule rmtree_gone)
  show ?thesis
    apply (rule exI [of _ ?s])
    apply (rule exI [of _ cause])
    apply (rule exI [of _ now])
    apply (intro conjI)
          apply (rule m)
         apply (rule cause)
        apply (rule before)
       apply (rule tr)
      apply (simp only: pf hf)
     apply (subst pf, rule rf)
    apply (rule g)
    done
qed

text \<open>
  Claim C3. When at least one player was started, every player started, and every
  player ends by itself or obeys a termination request, then whichever way the
  monitoring loop ends (a poll finds a child gone in round \<open>now\<close>, or the user interrupts
  in round \<open>now\<close>, which only prints a line), \<^verbatim>\<open>main\<close> does the same: it calls
  \<^verbatim>\<open>terminate\<close> on exactly the handles whose poll says that they still run, then
  \<^verbatim>\<open>wait\<close> once on every handle, in the order of creation, and only then removes the
  directory; at the end every handle has its return code, collected exactly once.
\<close>
theorem teardown_after_either_cause:
  "parse_arguments cfg a e s0 = Inr (a', vl, s1) \<Longrightarrow> vl \<noteq> [] \<Longrightarrow> \<not> dry_run a \<Longrightarrow> DISPLAYS cfg \<noteq> [] \<Longrightarrow>
   \<forall>i<length (DISPLAYS cfg). \<exists>c. popen_result e i = Some c \<and> (exits_at c = None \<longrightarrow> obeys_term c) \<Longrightarrow>
   interrupt_at e \<noteq> None
     \<or> (\<exists>i<length (DISPLAYS cfg). \<exists>c t. popen_result e i = Some c \<and> exits_at c = Some t) \<Longrightarrow>
   \<exists>s cause now.
      main cfg a e s0 = Some (Returned, s)
    \<and> (cause = StopIteration \<and> (\<exists>i<length (DISPLAYS cfg). \<not> still_running e now i)
       \<or> cause = KeyboardInterrupt \<and> interrupt_at e = Some now
           \<and> (\<forall>i<length (DISPLAYS cfg). still_running e now i))
    \<and> (\<forall>u<now. interrupt_at e \<noteq> Some u \<and> (\<forall>i<length (DISPLAYS cfg). still_running e u i))
    \<and> trace s = trace s1 @ setup_events e (length vl)
        @ concat (map (launch_events (config_dir_of e) vl) (enumerate 0 (DISPLAYS cfg)))
        @ (if cause = KeyboardInterrupt then [Print ''Interrupted by user''] else [])
        @ map Terminate (filter (still_running e now) [0..<length (DISPLAYS cfg)])
        @ map Wait [0..<length (DISPLAYS cfg)]
        @ [Rmtree (config_dir_of e)]
    \<and> map handle (processes s) = [0..<length (DISPLAYS cfg)]
    \<and> (\<forall>p\<in>set (processes s). returncode_set p \<and> reaped p = 1)
    \<and> config_dir_of e \<notin> dirs s"
  by (rule main_teardown)

subsection \<open>main, when a player does not start\<close>

lemma main_spawn_fails:
  assumes "parse_arguments cfg a e s0 = Inr (a', vl, s1)" and "vl \<noteq> []" and "\<not> dry_run a"
    and "k < length (DISPLAYS cfg)" and "popen_result e k = None"
    and "\<forall>i<k. popen_result e i \<noteq> None"
  shows "main cfg a e s0 =
     Some (Raised OSError,
       (after_setup e (length vl) s1)
         \<lparr>processes := map (spawned e (config_dir_of e) vl) (enumerate 0 (take k (DISPLAYS cfg))),
           trace := trace s1 @ setup_events e (length vl)
             @ concat (map (launch_events (config_dir_of e) vl) (enumerate 0 (take k (DISPLAYS cfg))))
             @ [PopenRaised (mpv_cmd (config_dir_of e) (DISPLAYS cfg ! k) vl)]\<rparr>)"
proof -
  let ?s = "after_setup e (length vl) s1"
  have p: "processes ?s = []" by (simp add: after_setup_def)
  have f: "popen_result e (length (processes ?s) + k) = None" using assms(5) by (simp add: p)
  have b: "\<forall>i<k. popen_result e (length (processes ?s) + i) \<noteq> None" using assms(6) by (simp add: p)
  from spawn_loop_fails [OF assms(4) f b, of "config_dir_of e" vl]
  have sp: "spawn_loop e False (config_dir_of e) vl (enumerate 0 (DISPLAYS cfg)) ?s
          = (Raised OSError,
             ?s\<lparr>processes := map (spawned e (config_dir_of e) vl) (enumerate 0 (take k (DISPLAYS cfg))),
           trace := trace s1 @ setup_events e (length vl)
             @ concat (map (launch_events (config_dir_of e) vl) (enumerate 0 (take k (DISPLAYS cfg))))
             @ [PopenRaised (mpv_cmd (config_dir_of e) (DISPLAYS cfg ! k) vl)]\<rparr>)"
    by (simp add: p after_setup_def)
  show ?thesis
    unfolding main_unfold [OF assms(1,2)] using assms(3) by (simp add: sp)
qed

lemma no_rmtree_in_launch: "Rmtree d \<notin> set (launch_events d' vl ix)"
  by (cases ix) (simp add: launch_events_def)

lemma no_rmtree_before_failure:
  "Rmtree d \<notin> set (setup_events e n @ concat (map (launch_events d' vl) ixs) @ [PopenRaised cmd])"
  by (simp add: setup_events_def no_rmtree_in_launch)

text \<open>
  Claim C2, as amended. When \<^verbatim>\<open>Popen\<close> raises for a display, the exception leaves the
  loop and \<^verbatim>\<open>main\<close>: the displays after it are not tried, the players already started
  are neither terminated nor waited for, and the run ends with the exception (exit
  status not 0) whether or not an earlier player was started.
\<close>
theorem spawn_failure_ends_the_run:
  "parse_arguments cfg a e s0 = Inr (a', vl, s1) \<Longrightarrow> vl \<noteq> [] \<Longrightarrow> \<not> dry_run a \<Longrightarrow>
   k < length (DISPLAYS cfg) \<Longrightarrow> popen_result e k = None \<Longrightarrow> \<forall>i<k. popen_result e i \<noteq> None \<Longrightarrow>
   \<exists>s. main cfg a e s0 = Some (Raised OSError, s)
     \<and> exit_status (Raised OSError) \<noteq> 0
     \<and> trace s = trace s1 @ setup_events e (length vl)
          @ concat (map (launch_events (config_dir_of e) vl) (enumerate 0 (take k (DISPLAYS cfg))))
          @ [PopenRaised (mpv_cmd (config_dir_of e) (DISPLAYS cfg ! k) vl)]
     \<and> map handle (processes s) = [0..<k]
     \<and> (\<forall>p\<in>set (processes s). \<not> returncode_set p \<and> \<not> term_sent p)"
proof -
  assume r: "parse_arguments cfg a e s0 = Inr (a', vl, s1)" and v: "vl \<noteq> []" and nd: "\<not> dry_run a"
    and k: "k < length (DISPLAYS cfg)" and f: "popen_result e k = None"
    and b: "\<forall>i<k. popen_result e i \<noteq> None"
  let ?ps = "map (spawned e (config_dir_of e) vl) (enumerate 0 (take k (DISPLAYS cfg)))"
  have h: "map handle ?ps = [0..<k]"
    using spawned_handles [of e "config_dir_of e" vl 0 "take k (DISPLAYS cfg)"] k by simp
  have fresh: "\<forall>p\<in>set ?ps. \<not> returncode_set p \<and> \<not> term_sent p"
  proof
    fix p assume "p \<in> set ?ps"
    from spawned_set [OF this] obtain i where "p = spawned e (config_dir_of e) vl (i, take k (DISPLAYS cfg) ! i)"
      by (elim exE conjE)
    then show "\<not> returncode_set p \<and> \<not> term_sent p" by simp
  qed
  let ?s = "(after_setup e (length vl) s1)
         \<lparr>processes := ?ps,
           trace := trace s1 @ setup_events e (length vl)
             @ concat (map (launch_events (config_dir_of e) vl) (enumerate 0 (take k (DISPLAYS cfg))))
             @ [PopenRaised (mpv_cmd (config_dir_of e) (DISPLAYS cfg ! k) vl)]\<rparr>"
  have m: "main cfg a e s0 = Some (Raised OSError, ?s)"
    by (rule main_spawn_fails [OF r v nd k f b])
  have x: "exit_status (Raised OSError) \<noteq> 0" by simp
  have t: "trace ?s = trace s1 @ setup_events e (length vl)
             @ concat (map (launch_events (config_dir_of e) vl) (enumerate 0 (take k (DISPLAYS cfg))))
             @ [PopenRaised (mpv_cmd (config_dir_of e) (DISPLAYS cfg ! k) vl)]"
    by simp
  have p: "processes ?s = ?ps" by simp
  show ?thesis
    apply (rule exI [of _ ?s])
    apply (intro conjI)
        apply (rule m)
       apply (rule x)
      apply (rule t)
     apply (subst p, rule h)
    apply (subst p, rule fresh)
    done
qed

lemma main_returned_shape:
  assumes "parse_arguments cfg a e s0 = Inr (a', vl, s1)" and "vl \<noteq> []"
    and "main cfg a e s0 = Some (Returned, s)"
  shows "\<exists>s5. s = rmtree (config_dir_of e) s5"
proof -
  obtain res s4 where sp:
    "spawn_loop e (dry_run a) (config_dir_of e) vl (enumerate 0 (DISPLAYS cfg))
       (after_setup e (length vl) s1) = (res, s4)"
    by (rule prod.exhaust)
  show ?thesis
  proof (cases res)
    case (Raised x)
    with assms(3) show ?thesis
      unfolding main_unfold [OF assms(1,2)] sp by simp
  next
    case Returned
    show ?thesis
    proof (cases "if processes s4 \<noteq> [] then try_block e s4 else Some s4")
      case None
      with assms(3) Returned show ?thesis
        unfolding main_unfold [OF assms(1,2)] sp by simp
    next
      case (Some s5)
      with assms(3) Returned have "s = rmtree (config_dir_of e) s5"
        unfolding main_unfold [OF assms(1,2)] sp by simp
      then show ?thesis by (rule exI)
    qed
  qed
qed

lemma first_failure:
  assumes "\<exists>i<n. popen_result e i = None"
  shows "\<exists>k<n. popen_result e k = None \<and> (\<forall>i<k. popen_result e i \<noteq> None)"
proof -
  define k where "k = (LEAST i. i < n \<and> popen_result e i = None)"
  from assms have "k < n \<and> popen_result e k = None"
    unfolding k_def by (elim exE) (rule LeastI)
  then have k: "k < n" and f: "popen_result e k = None" by simp_all
  have "\<forall>i<k. popen_result e i \<noteq> None"
  proof (intro allI impI)
    fix i assume i: "i < k"
    then have "\<not> (i < n \<and> popen_result e i = None)"
      unfolding k_def by (rule not_less_Least)
    with i k show "popen_result e i \<noteq> None" by simp
  qed
  with k f show ?thesis by blast
qed

text \<open>
  Claim C1, as amended. In a run that creates the temporary directory: whenever
  \<^verbatim>\<open>main\<close> returns, the directory is gone and removing it was the last thing done;
  \<^verbatim>\<open>main\<close> does return in a dry run, with no display, and when every player starts
  and stops (the loop ends by a child that finishes or by the user's interruption);
  but when \<^verbatim>\<open>Popen\<close> raises, the exception leaves \<^verbatim>\<open>main\<close> and the directory is still
  there.
\<close>
theorem config_dir_removed_unless_spawn_raises:
  "parse_arguments cfg a e s0 = Inr (a', vl, s1) \<Longrightarrow> vl \<noteq> [] \<Longrightarrow>
   (\<forall>s. main cfg a e s0 = Some (Returned, s) \<longrightarrow>
        config_dir_of e \<notin> dirs s \<and> last (trace s) = Rmtree (config_dir_of e))
   \<and> (dry_run a \<or> DISPLAYS cfg = []
        \<or> (\<forall>i<length (DISPLAYS cfg). \<exists>c. popen_result e i = Some c \<and> (exits_at c = None \<longrightarrow> obeys_term c))
          \<and> (interrupt_at e \<noteq> None
              \<or> (\<exists>i<length (DISPLAYS cfg). \<exists>c t. popen_result e i = Some c \<and> exits_at c = Some t))
      \<longrightarrow> (\<exists>s. main cfg a e s0 = Some (Returned, s)))
   \<and> (\<not> dry_run a \<and> (\<exists>i<length (DISPLAYS cfg). popen_result e i = None)
      \<longrightarrow> (\<exists>s. main cfg a e s0 = Some (Raised OSError, s)
             \<and> config_dir_of e \<in> dirs s
             \<and> Rmtree (config_dir_of e) \<notin> set (drop (length (trace s1)) (trace s))))"
proof -
  assume r: "parse_arguments cfg a e s0 = Inr (a', vl, s1)" and v: "vl \<noteq> []"
  let ?d = "config_dir_of e"
  let ?n = "length (DISPLAYS cfg)"
  have removed: "\<forall>s. main cfg a e s0 = Some (Returned, s) \<longrightarrow>
        ?d \<notin> dirs s \<and> last (trace s) = Rmtree ?d"
  proof (intro allI impI)
    fix s assume "main cfg a e s0 = Some (Returned, s)"
    from main_returned_shape [OF r v this] obtain s5 where "s = rmtree ?d s5" by (elim exE)
    then show "?d \<notin> dirs s \<and> last (trace s) = Rmtree ?d"
      by (simp add: rmtree_gone rmtree_trace)
  qed
  have returns: "\<exists>s. main cfg a e s0 = Some (Returned, s)"
    if c: "dry_run a \<or> DISPLAYS cfg = []
        \<or> (\<forall>i<?n. \<exists>c. popen_result e i = Some c \<and> (exits_at c = None \<longrightarrow> obeys_term c))
          \<and> (interrupt_at e \<noteq> None
              \<or> (\<exists>i<?n. \<exists>c t. popen_result e i = Some c \<and> exits_at c = Some t))"
  proof (cases "dry_run a")
    case True
    show ?thesis by (rule exI) (rule main_dry_run [OF r v True])
  next
    case nd: False
    show ?thesis
    proof (cases "DISPLAYS cfg = []")
      case True
      then have "\<forall>i<?n. popen_result e i \<noteq> None" by simp
      from main_all_spawned [OF r v nd this] True show ?thesis by simp
    next
      case False
      from c nd False have ok: "\<forall>i<?n. \<exists>c. popen_result e i = Some c \<and> (exits_at c = None \<longrightarrow> obeys_term c)"
        by (elim disjE conjE) simp_all
      from c nd False have ends: "interrupt_at e \<noteq> None
              \<or> (\<exists>i<?n. \<exists>c t. popen_result e i = Some c \<and> exits_at c = Some t)"
        by (elim disjE conjE) simp_all
      from main_teardown [OF r v nd False ok ends] obtain s where "main cfg a e s0 = Some (Returned, s)"
        by (elim exE conjE)
      then show ?thesis by (rule exI)
    qed
  qed
  have stays: "\<exists>s. main cfg a e s0 = Some (Raised OSError, s)
             \<and> ?d \<in> dirs s
             \<and> Rmtree ?d \<notin> set (drop (length (trace s1)) (trace s))"
    if nd: "\<not> dry_run a" and ex: "\<exists>i<?n. popen_result e i = None"
  proof -
    from first_failure [OF ex] obtain k where k: "k < ?n" and f: "popen_result e k = None"
      and b: "\<forall>i<k. popen_result e i \<noteq> None"
      by (elim exE conjE)
    let ?evs = "setup_events e (length vl)
             @ concat (map (launch_events ?d vl) (enumerate 0 (take k (DISPLAYS cfg))))
             @ [PopenRaised (mpv_cmd ?d (DISPLAYS cfg ! k) vl)]"
    let ?s = "(after_setup e (length vl) s1)
         \<lparr>processes := map (spawned e ?d vl) (enumerate 0 (take k (DISPLAYS cfg))),
           trace := trace s1 @ ?evs\<rparr>"
    have m: "main cfg a e s0 = Some (Raised OSError, ?s)"
      by (rule main_spawn_fails [OF r v nd k f b])
    have d: "?d \<in> dirs ?s" by (simp add: after_setup_def)
    have "drop (length (trace s1)) (trace ?s) = ?evs" by simp
    then have n: "Rmtree ?d \<notin> set (drop (length (trace s1)) (trace ?s))"
      by (simp only: no_rmtree_before_failure not_False_eq_True)
    show ?thesis
      apply (rule exI [of _ ?s])
      apply (intro conjI)
        apply (rule m)
       apply (rule d)
      apply (rule n)
      done
  qed
  show ?thesis
  proof (intro conjI impI)
    show "\<forall>s. main cfg a e s0 = Some (Returned, s) \<longrightarrow>
        ?d \<notin> dirs s \<and> last (trace s) = Rmtree ?d"
      by (rule removed)
  next
    assume "dry_run a \<or> DISPLAYS cfg = []
        \<or> (\<forall>i<?n. \<exists>c. popen_result e i = Some c \<and> (exits_at c = None \<longrightarrow> obeys_term c))
          \<and> (interrupt_at e \<noteq> None
              \<or> (\<exists>i<?n. \<exists>c t. popen_result e i = Some c \<and> exits_at c = Some t))"
    then show "\<exists>s. main cfg a e s0 = Some (Returned, s)" by (rule returns)
  next
    assume "\<not> dry_run a \<and> (\<exists>i<?n. popen_result e i = None)"
    then have "\<not> dry_run a" "\<exists>i<?n. popen_result e i = None" by simp_all
    then show "\<exists>s. main cfg a e s0 = Some (Raised OSError, s)
             \<and> ?d \<in> dirs s
             \<and> Rmtree ?d \<notin> set (drop (length (trace s1)) (trace s))"
      by (rule stays)
  qed
qed

subsection \<open>Concrete runs\<close>

lemma w_dir [simp]:
  "config_dir_of w_env = ''/tmp/mpvconfig_k3x9''"
  "config_dir_of w_env_no_player = ''/tmp/mpvconfig_k3x9''"
  "config_dir_of w_env_second_fails = ''/tmp/mpvconfig_k3x9''"
  "config_dir_of w_env_interrupted = ''/tmp/mpvconfig_k3x9''"
  by (simp_all add: config_dir_of_def w_env_def w_env_no_player_def w_env_second_fails_def
        w_env_interrupted_def)

lemma w_still_running:
  "still_running w_env t i = (i \<noteq> 0 \<or> t < 2)"
  "still_running w_env_interrupted t i = (i \<noteq> 0 \<or> t < 2)"
  by (simp_all add: still_running_def w_env_def w_env_interrupted_def)

lemma w_players:
  "\<forall>i<n. \<exists>c. popen_result w_env i = Some c \<and> (exits_at c = None \<longrightarrow> obeys_term c)"
  "\<forall>i<n. \<exists>c. popen_result w_env_interrupted i = Some c \<and> (exits_at c = None \<longrightarrow> obeys_term c)"
  by (simp_all add: w_env_def w_env_interrupted_def)

lemma w_ends:
  "interrupt_at w_env \<noteq> None
     \<or> (\<exists>i<length (DISPLAYS w_config). \<exists>c t. popen_result w_env i = Some c \<and> exits_at c = Some t)"
  "interrupt_at w_env_interrupted \<noteq> None
     \<or> (\<exists>i<length (DISPLAYS w_config). \<exists>c t. popen_result w_env_interrupted i = Some c \<and> exits_at c = Some t)"
  by (simp_all add: w_env_def w_env_interrupted_def w_config_def)

lemma upt_2: "[0..<2] = [0, Suc 0]"
  by (simp add: upt_rec)

theorem teardown_after_either_cause_witness:
  "main w_config \<lparr>videos = [''b.mp4''], dry_run = False\<rparr> w_env w_state \<noteq> None
   \<and> fst (the (main w_config \<lparr>videos = [''b.mp4''], dry_run = False\<rparr> w_env w_state)) = Returned
   \<and> drop 8 (trace (snd (the (main w_config \<lparr>videos = [''b.mp4''], dry_run = False\<rparr> w_env w_state))))
       = [Terminate 1, Wait 0, Wait 1, Rmtree ''/tmp/mpvconfig_k3x9'']
   \<and> main w_config \<lparr>videos = [''b.mp4''], dry_run = False\<rparr> w_env_interrupted w_state \<noteq> None
   \<and> fst (the (main w_config \<lparr>videos = [''b.mp4''], dry_run = False\<rparr> w_env_interrupted w_state)) = Returned
   \<and> drop 8 (trace (snd (the (main w_config \<lparr>videos = [''b.mp4''], dry_run = False\<rparr> w_env_interrupted w_state))))
       = [Print ''Interrupted by user'', Terminate 0, Terminate 1, Wait 0, Wait 1,
          Rmtree ''/tmp/mpvconfig_k3x9'']"
proof -
  let ?a = "\<lparr>videos = [''b.mp4''], dry_run = False\<rparr>"
  have v: "[''b.mp4''] \<noteq> []" by simp
  have nd: "\<not> dry_run ?a" by simp
  have ds: "DISPLAYS w_config \<noteq> []" by (simp add: w_config_def)
  have n: "length (DISPLAYS w_config) = 2" by (simp add: w_config_def)
  have pre: "length (trace w_state @ setup_events e (length [''b.mp4''])
        @ concat (map (launch_events d [''b.mp4'']) (enumerate 0 (DISPLAYS w_config)))) = 8" for e d
    by (simp add: w_state_def setup_events_def launch_events_def w_config_def)
  \<comment> \<open>the first player finishes in round 2\<close>
  from teardown_after_either_cause [OF w_parse [where cfg = w_config] v nd ds w_players(1) w_ends(1)]
  obtain s cause now where
    m: "main w_config ?a w_env w_state = Some (Returned, s)"
    and c: "cause = StopIteration \<and> (\<exists>i<length (DISPLAYS w_config). \<not> still_running w_env now i)
       \<or> cause = KeyboardInterrupt \<and> interrupt_at w_env = Some now
           \<and> (\<forall>i<length (DISPLAYS w_config). still_running w_env now i)"
    and t: "trace s = (trace w_state @ setup_events w_env (length [''b.mp4''])
        @ concat (map (launch_events (config_dir_of w_env) [''b.mp4'']) (enumerate 0 (DISPLAYS w_config))))
        @ (if cause = KeyboardInterrupt then [Print ''Interrupted by user''] else [])
        @ map Terminate (filter (still_running w_env now) [0..<length (DISPLAYS w_config)])
        @ map Wait [0..<length (DISPLAYS w_config)]
        @ [Rmtree (config_dir_of w_env)]"
    by (elim exE conjE) (rule that; simp only: append_assoc)
  have "interrupt_at w_env = None" by (simp add: w_env_def)
  with c have c1: "cause = StopIteration" and "\<exists>i<2. \<not> still_running w_env now i"
    unfolding n by auto
  then have now: "\<not> now < 2" by (auto simp: w_still_running)
  have f1: "filter (still_running w_env now) [0..<2] = [Suc 0]"
    using now by (simp add: upt_2 w_still_running)
  have t1: "drop 8 (trace s) = [Terminate 1, Wait 0, Wait 1, Rmtree ''/tmp/mpvconfig_k3x9'']"
    unfolding t n f1 using c1 pre [of w_env "config_dir_of w_env"] by (simp add: upt_2)
  \<comment> \<open>the user interrupts in round 1\<close>
  from teardown_after_either_cause [OF w_parse [where cfg = w_config] v nd ds w_players(2) w_ends(2)]
  obtain s' cause' now' where
    m': "main w_config ?a w_env_interrupted w_state = Some (Returned, s')"
    and c': "cause' = StopIteration \<and> (\<exists>i<length (DISPLAYS w_config). \<not> still_running w_env_interrupted now' i)
       \<or> cause' = KeyboardInterrupt \<and> interrupt_at w_env_interrupted = Some now'
           \<and> (\<forall>i<length (DISPLAYS w_config). still_running w_env_interrupted now' i)"
    and b': "\<forall>u<now'. interrupt_at w_env_interrupted \<noteq> Some u
           \<and> (\<forall>i<length (DISPLAYS w_config). still_running w_env_interrupted u i)"
    and t': "trace s' = (trace w_state @ setup_events w_env_interrupted (length [''b.mp4''])
        @ concat (map (launch_events (config_dir_of w_env_interrupted) [''b.mp4'']) (enumerate 0 (DISPLAYS w_config))))
        @ (if cause' = KeyboardInterrupt then [Print ''Interrupted by user''] else [])
        @ map Terminate (filter (still_running w_env_interrupted now') [0..<length (DISPLAYS w_config)])
        @ map Wait [0..<length (DISPLAYS w_config)]
        @ [Rmtree (config_dir_of w_env_interrupted)]"
    by (elim exE conjE) (rule that; simp only: append_assoc)
  have i: "interrupt_at w_env_interrupted = Some 1" by (simp add: w_env_interrupted_def)
  have "\<not> 1 < now'" using b' i by auto
  then have le: "now' \<le> 1" by simp
  with c' have c2: "cause' = KeyboardInterrupt"
    unfolding n by (auto simp: w_still_running)
  have f2: "filter (still_running w_env_interrupted now') [0..<2] = [0, Suc 0]"
    using le by (simp add: upt_2 w_still_running)
  have t2: "drop 8 (trace s') = [Print ''Interrupted by user'', Terminate 0, Terminate 1, Wait 0, Wait 1,
          Rmtree ''/tmp/mpvconfig_k3x9'']"
    unfolding t' n f2 using c2 pre [of w_env_interrupted "config_dir_of w_env_interrupted"]
    by (simp add: upt_2)
  show ?thesis by (simp add: m m' t1 t2)
qed

lemma w_second_fails:
  "Suc 0 < length (DISPLAYS w_config3)"
  "popen_result w_env_second_fails (Suc 0) = None"
  "\<forall>i<Suc 0. popen_result w_env_second_fails i \<noteq> None"
  by (simp_all add: w_config3_def w_env_second_fails_def)

lemma w_run_second_fails:
  "main w_config3 \<lparr>videos = [''b.mp4''], dry_run = False\<rparr> w_env_second_fails w_state =
     Some (Raised OSError,
       (after_setup w_env_second_fails 1 w_state)
         \<lparr>processes := [spawned w_env_second_fails ''/tmp/mpvconfig_k3x9'' [''b.mp4''] (0, 0)],
           trace := setup_events w_env_second_fails 1
             @ launch_events ''/tmp/mpvconfig_k3x9'' [''b.mp4''] (0, 0)
             @ [PopenRaised (mpv_cmd ''/tmp/mpvconfig_k3x9'' 1 [''b.mp4''])]\<rparr>)"
proof -
  have v: "[''b.mp4''] \<noteq> []" by simp
  have nd: "\<not> dry_run \<lparr>videos = [''b.mp4''], dry_run = False\<rparr>" by simp
  show ?thesis
    unfolding main_spawn_fails [OF w_parse [where cfg = w_config3] v nd w_second_fails]
    by (simp add: w_config3_def w_state_def)
qed

theorem spawn_failure_ends_the_run_counterexample:
  "main w_config3 \<lparr>videos = [''b.mp4''], dry_run = False\<rparr> w_env_second_fails w_state \<noteq> None
   \<and> fst (the (main w_config3 \<lparr>videos = [''b.mp4''], dry_run = False\<rparr> w_env_second_fails w_state))
       = Raised OSError
   \<and> filter is_attempt
        (trace (snd (the (main w_config3 \<lparr>videos = [''b.mp4''], dry_run = False\<rparr>
                              w_env_second_fails w_state))))
       = [Popen [''mpv'', ''--config-dir=/tmp/mpvconfig_k3x9'', ''--fs-screen=0'', ''b.mp4''] 0,
          PopenRaised [''mpv'', ''--config-dir=/tmp/mpvconfig_k3x9'', ''--fs-screen=1'', ''b.mp4'']]
   \<and> DISPLAYS w_config3 = [0, 1, 2]
   \<and> popen_result w_env_second_fails 2 \<noteq> None"
  unfolding w_run_second_fails
  by (simp add: setup_events_def launch_events_def mpv_cmd_def w_config3_def
        w_env_second_fails_def)

theorem spawn_failure_ends_the_run_witness:
  "fst (the (main w_config3 \<lparr>videos = [''b.mp4''], dry_run = False\<rparr> w_env_second_fails w_state))
       = Raised OSError
   \<and> map handle (processes (snd (the (main w_config3 \<lparr>videos = [''b.mp4''], dry_run = False\<rparr>
                                        w_env_second_fails w_state)))) = [0]
   \<and> last (trace (snd (the (main w_config3 \<lparr>videos = [''b.mp4''], dry_run = False\<rparr>
                                        w_env_second_fails w_state))))
       = PopenRaised [''mpv'', ''--config-dir=/tmp/mpvconfig_k3x9'', ''--fs-screen=1'', ''b.mp4'']"
proof -
  have v: "[''b.mp4''] \<noteq> []" by simp
  have nd: "\<not> dry_run \<lparr>videos = [''b.mp4''], dry_run = False\<rparr>" by simp
  from spawn_failure_ends_the_run [OF w_parse [where cfg = w_config3] v nd w_second_fails]
  obtain s where
    m: "main w_config3 \<lparr>videos = [''b.mp4''], dry_run = False\<rparr> w_env_second_fails w_state
          = Some (Raised OSError, s)"
    and t: "trace s = trace w_state @ setup_events w_env_second_fails (length [''b.mp4''])
          @ concat (map (launch_events (config_dir_of w_env_second_fails) [''b.mp4''])
              (enumerate 0 (take (Suc 0) (DISPLAYS w_config3))))
          @ [PopenRaised (mpv_cmd (config_dir_of w_env_second_fails) (DISPLAYS w_config3 ! Suc 0) [''b.mp4''])]"
    and h: "map handle (processes s) = [0..<Suc 0]"
    by (elim exE conjE)
  from t have "last (trace s)
      = PopenRaised [''mpv'', ''--config-dir=/tmp/mpvconfig_k3x9'', ''--fs-screen=1'', ''b.mp4'']"
    by (simp add: mpv_cmd_def w_config3_def)
  with m h show ?thesis by simp
qed

lemma w_no_player:
  "0 < length (DISPLAYS default_config)"
  "popen_result w_env_no_player 0 = None"
  "\<forall>i<0. popen_result w_env_no_player i \<noteq> None"
  by (simp_all add: default_config_def w_env_no_player_def)

theorem config_dir_removed_unless_spawn_raises_counterexample:
  "''/tmp/mpvconfig_k3x9'' \<notin> dirs w_state
   \<and> main default_config \<lparr>videos = [''b.mp4''], dry_run = False\<rparr> w_env_no_player w_state \<noteq> None
   \<and> fst (the (main default_config \<lparr>videos = [''b.mp4''], dry_run = False\<rparr> w_env_no_player w_state))
       = Raised OSError
   \<and> ''/tmp/mpvconfig_k3x9''
       \<in> dirs (snd (the (main default_config \<lparr>videos = [''b.mp4''], dry_run = False\<rparr>
                               w_env_no_player w_state)))"
proof -
  have v: "[''b.mp4''] \<noteq> []" by simp
  have nd: "\<not> dry_run \<lparr>videos = [''b.mp4''], dry_run = False\<rparr>" by simp
  show ?thesis
    unfolding main_spawn_fails [OF w_parse [where cfg = default_config] v nd w_no_player]
    by (simp add: after_setup_def w_state_def)
qed

theorem config_dir_removed_unless_spawn_raises_witness:
  "main w_config \<lparr>videos = [''b.mp4''], dry_run = False\<rparr> w_env w_state \<noteq> None
   \<and> fst (the (main w_config \<lparr>videos = [''b.mp4''], dry_run = False\<rparr> w_env w_state)) = Returned
   \<and> ''/tmp/mpvconfig_k3x9''
       \<notin> dirs (snd (the (main w_config \<lparr>videos = [''b.mp4''], dry_run = False\<rparr> w_env w_state)))
   \<and> fst (the (main default_config \<lparr>videos = [''b.mp4''], dry_run = False\<rparr> w_env_no_player w_state))
       = Raised OSError
   \<and> ''/tmp/mpvconfig_k3x9''
       \<in> dirs (snd (the (main default_config \<lparr>videos = [''b.mp4''], dry_run = False\<rparr>
                               w_env_no_player w_state)))"
proof -
  let ?a = "\<lparr>videos = [''b.mp4''], dry_run = False\<rparr>"
  have v: "[''b.mp4''] \<noteq> []" by simp
  note good = config_dir_removed_unless_spawn_raises
                [OF w_parse [where cfg = w_config and dr = False] v, where e = w_env]
  note bad = config_dir_removed_unless_spawn_raises
                [OF w_parse [where cfg = default_config and dr = False] v, where e = w_env_no_player]
  have "dry_run ?a \<or> DISPLAYS w_config = []
        \<or> (\<forall>i<length (DISPLAYS w_config). \<exists>c. popen_result w_env i = Some c \<and> (exits_at c = None \<longrightarrow> obeys_term c))
          \<and> (interrupt_at w_env \<noteq> None
              \<or> (\<exists>i<length (DISPLAYS w_config). \<exists>c t. popen_result w_env i = Some c \<and> exits_at c = Some t))"
    using w_players(1) w_ends(1) by blast
  from good [THEN conjunct2, THEN conjunct1, THEN mp, OF this]
  obtain s where m: "main w_config ?a w_env w_state = Some (Returned, s)"
    by (elim exE)
  with good [THEN conjunct1] have g: "''/tmp/mpvconfig_k3x9'' \<notin> dirs s" by simp
  have hyp: "\<not> dry_run ?a \<and> (\<exists>i<length (DISPLAYS default_config). popen_result w_env_no_player i = None)"
    by (simp add: default_config_def w_env_no_player_def)
  from bad [THEN conjunct2, THEN conjunct2, THEN mp, OF hyp]
  obtain s' where "main default_config ?a w_env_no_player w_state = Some (Raised OSError, s')"
    "config_dir_of w_env_no_player \<in> dirs s'"
    by (elim exE conjE)
  with m g show ?thesis by simp
qed

subsection \<open>Paths that are not regular files\<close>

lemma launch_has_popen:
  assumes "i < length xs"
  shows "Popen (mpv_cmd d (xs ! i) vl) i \<in> set (concat (map (launch_events d vl) (enumerate 0 xs)))"
proof -
  have "(i, xs ! i) \<in> set (enumerate 0 xs)"
    using assms by (simp add: in_set_enumerate_eq)
  moreover have "Popen (mpv_cmd d (xs ! i) vl) i \<in> set (launch_events d vl (i, xs ! i))"
    by (simp add: launch_events_def)
  ultimately show ?thesis by (auto simp del: enumerate_eq_zip)
qed

lemma no_notification_in_launch: "not_found p \<notin> set (launch_events d vl ix)"
  by (cases ix) (simp add: launch_events_def not_found_def)

lemma no_notification_after_parse:
  "not_found p \<notin> set (setup_events e n @ concat (map (launch_events d vl) ixs)
      @ (if cause = KeyboardInterrupt then [Print ''Interrupted by user''] else [])
      @ map Terminate hs @ map Wait ws @ [Rmtree d'])"
proof -
  have a: "not_found p \<notin> set (setup_events e n)"
    by (simp add: setup_events_def not_found_def)
  have b: "not_found p \<notin> set (concat (map (launch_events d vl) ixs))"
    using no_notification_in_launch by auto
  have c: "not_found p \<notin> set ((if cause = KeyboardInterrupt then [Print ''Interrupted by user''] else [])
      @ map Terminate hs @ map Wait ws @ [Rmtree d'])"
    by (auto simp: not_found_def)
  from a b c show ?thesis by simp
qed

text \<open>
  Claim C10. The existence check accepts every path that exists, not only regular
  files: a path of the list that names a directory (or a device, a socket, a pipe) is
  kept and no notification is sent for it; and when the players are started, every
  \<^verbatim>\<open>Popen\<close> call of \<^verbatim>\<open>main\<close>, one for each display, has the path among the arguments of
  \<^verbatim>\<open>mpv\<close>.
\<close>
theorem directory_passes_existence_check:
  "p \<in> dirs s0 \<or> p \<in> specials s0 \<Longrightarrow> p \<in> set (working_list cfg a) \<Longrightarrow>
   parse_arguments cfg a e s0 = Inr (a', valid, s1) \<Longrightarrow>
     p \<in> set valid
     \<and> not_found p \<notin> set (drop (length (trace s0)) (trace s1))
     \<and> (\<not> dry_run a \<and> DISPLAYS cfg \<noteq> []
          \<and> (\<forall>i<length (DISPLAYS cfg). \<exists>c. popen_result e i = Some c \<and> (exits_at c = None \<longrightarrow> obeys_term c))
          \<and> (interrupt_at e \<noteq> None
              \<or> (\<exists>i<length (DISPLAYS cfg). \<exists>c t. popen_result e i = Some c \<and> exits_at c = Some t))
        \<longrightarrow> (\<exists>s. main cfg a e s0 = Some (Returned, s)
               \<and> (\<forall>i<length (DISPLAYS cfg).
                     Popen ([''mpv'', ''--config-dir='' @ config_dir_of e,
                             ''--fs-screen='' @ str_int (DISPLAYS cfg ! i)] @ valid) i
                       \<in> set (drop (length (trace s0)) (trace s)))
               \<and> not_found p \<notin> set (drop (length (trace s0)) (trace s))))"
proof -
  assume d: "p \<in> dirs s0 \<or> p \<in> specials s0" and m: "p \<in> set (working_list cfg a)"
    and r: "parse_arguments cfg a e s0 = Inr (a', valid, s1)"
  let ?missing = "take 3 (filter (\<lambda>p. \<not> path_exists s0 p) (working_list cfg a))"
  let ?n = "length (DISPLAYS cfg)"
  let ?d = "config_dir_of e"
  from d have ex: "path_exists s0 p" by (auto simp: path_exists_def)
  note v = parse_arguments_returned(2) [OF r]
  have t1: "trace s1 = trace s0 @ map not_found ?missing"
    using parse_arguments_returned(3) [OF r] by simp
  from v m ex have kept: "p \<in> set valid" by simp
  then have ne: "valid \<noteq> []" by auto
  have quiet: "not_found p \<notin> set (map not_found ?missing)"
  proof
    assume "not_found p \<in> set (map not_found ?missing)"
    then have "p \<in> set ?missing" by (auto simp: not_found_inj)
    then have "p \<in> set (filter (\<lambda>p. \<not> path_exists s0 p) (working_list cfg a))"
      by (rule in_set_takeD)
    with ex show False by simp
  qed
  have silent: "not_found p \<notin> set (drop (length (trace s0)) (trace s1))"
    unfolding t1 using quiet by simp
  have run: "\<exists>s. main cfg a e s0 = Some (Returned, s)
               \<and> (\<forall>i<?n. Popen ([''mpv'', ''--config-dir='' @ ?d,
                             ''--fs-screen='' @ str_int (DISPLAYS cfg ! i)] @ valid) i
                       \<in> set (drop (length (trace s0)) (trace s)))
               \<and> not_found p \<notin> set (drop (length (trace s0)) (trace s))"
    if nd: "\<not> dry_run a" and ds: "DISPLAYS cfg \<noteq> []"
      and ok: "\<forall>i<?n. \<exists>c. popen_result e i = Some c \<and> (exits_at c = None \<longrightarrow> obeys_term c)"
      and ends: "interrupt_at e \<noteq> None
              \<or> (\<exists>i<?n. \<exists>c t. popen_result e i = Some c \<and> exits_at c = Some t)"
  proof -
    from main_teardown [OF r ne nd ds ok ends] obtain s cause now where
      ms: "main cfg a e s0 = Some (Returned, s)"
      and ts: "trace s = trace s1 @ setup_events e (length valid)
        @ concat (map (launch_events ?d valid) (enumerate 0 (DISPLAYS cfg)))
        @ (if cause = KeyboardInterrupt then [Print ''Interrupted by user''] else [])
        @ map Terminate (filter (still_running e now) [0..<?n])
        @ map Wait [0..<?n]
        @ [Rmtree ?d]"
      by (elim exE conjE)
    let ?rest = "setup_events e (length valid)
        @ concat (map (launch_events ?d valid) (enumerate 0 (DISPLAYS cfg)))
        @ (if cause = KeyboardInterrupt then [Print ''Interrupted by user''] else [])
        @ map Terminate (filter (still_running e now) [0..<?n])
        @ map Wait [0..<?n]
        @ [Rmtree ?d]"
    have new: "drop (length (trace s0)) (trace s) = map not_found ?missing @ ?rest"
      unfolding ts t1 by simp
    have popen: "Popen ([''mpv'', ''--config-dir='' @ ?d,
                             ''--fs-screen='' @ str_int (DISPLAYS cfg ! i)] @ valid) i
                   \<in> set (drop (length (trace s0)) (trace s))" if "i < ?n" for i
    proof -
      from launch_has_popen [OF that, of ?d valid]
      have "Popen (mpv_cmd ?d (DISPLAYS cfg ! i) valid) i \<in> set ?rest"
        by simp
      then show ?thesis unfolding new by (simp add: mpv_cmd_def)
    qed
    have "not_found p \<notin> set ?rest" by (rule no_notification_after_parse)
    with quiet have none: "not_found p \<notin> set (drop (length (trace s0)) (trace s))"
      unfolding new by simp
    from popen have all: "\<forall>i<?n. Popen ([''mpv'', ''--config-dir='' @ ?d,
                             ''--fs-screen='' @ str_int (DISPLAYS cfg ! i)] @ valid) i
                       \<in> set (drop (length (trace s0)) (trace s))"
      by (intro allI impI)
    show ?thesis
      apply (rule exI [of _ s])
      apply (intro conjI)
        apply (rule ms)
       apply (rule all)
      apply (rule none)
      done
  qed
  show ?thesis
  proof (intro conjI impI)
    show "p \<in> set valid" by (rule kept)
  next
    show "not_found p \<notin> set (drop (length (trace s0)) (trace s1))" by (rule silent)
  next
    assume h: "\<not> dry_run a \<and> DISPLAYS cfg \<noteq> []
          \<and> (\<forall>i<?n. \<exists>c. popen_result e i = Some c \<and> (exits_at c = None \<longrightarrow> obeys_term c))
          \<and> (interrupt_at e \<noteq> None
              \<or> (\<exists>i<?n. \<exists>c t. popen_result e i = Some c \<and> exits_at c = Some t))"
    from h have nd: "\<not> dry_run a" by (rule conjunct1)
    from h have ds: "DISPLAYS cfg \<noteq> []" by (elim conjE)
    from h have ok: "\<forall>i<?n. \<exists>c. popen_result e i = Some c \<and> (exits_at c = None \<longrightarrow> obeys_term c)"
      by (elim conjE)
    from h have ends: "interrupt_at e \<noteq> None
              \<or> (\<exists>i<?n. \<exists>c t. popen_result e i = Some c \<and> exits_at c = Some t)"
      by (elim conjE)
    show "\<exists>s. main cfg a e s0 = Some (Returned, s)
               \<and> (\<forall>i<?n. Popen ([''mpv'', ''--config-dir='' @ ?d,
                             ''--fs-screen='' @ str_int (DISPLAYS cfg ! i)] @ valid) i
                       \<in> set (drop (length (trace s0)) (trace s)))
               \<and> not_found p \<notin> set (drop (length (trace s0)) (trace s))"
      by (rule run [OF nd ds ok ends])
  qed
qed

theorem directory_passes_existence_check_witness:
  "''/videos'' \<in> dirs w_state \<and> ''/dev/null'' \<in> specials w_state
   \<and> parse_arguments w_config \<lparr>videos = [''/videos'', ''m1'', ''/dev/null''], dry_run = False\<rparr>
        w_env w_state
      = Inr (\<lparr>videos = [''/videos'', ''m1'', ''/dev/null''], dry_run = False\<rparr>,
             [''/videos'', ''/dev/null''], w_state\<lparr>trace := [not_found ''m1'']\<rparr>)
   \<and> main w_config \<lparr>videos = [''/videos'', ''m1'', ''/dev/null''], dry_run = False\<rparr> w_env w_state
        \<noteq> None
   \<and> Popen [''mpv'', ''--config-dir=/tmp/mpvconfig_k3x9'', ''--fs-screen=0'', ''/videos'', ''/dev/null''] 0
        \<in> set (trace (snd (the (main w_config
               \<lparr>videos = [''/videos'', ''m1'', ''/dev/null''], dry_run = False\<rparr> w_env w_state))))
   \<and> Popen [''mpv'', ''--config-dir=/tmp/mpvconfig_k3x9'', ''--fs-screen=1'', ''/videos'', ''/dev/null''] 1
        \<in> set (trace (snd (the (main w_config
               \<lparr>videos = [''/videos'', ''m1'', ''/dev/null''], dry_run = False\<rparr> w_env w_state))))
   \<and> not_found ''/videos''
        \<notin> set (trace (snd (the (main w_config
               \<lparr>videos = [''/videos'', ''m1'', ''/dev/null''], dry_run = False\<rparr> w_env w_state))))
   \<and> not_found ''/dev/null''
        \<notin> set (trace (snd (the (main w_config
               \<lparr>videos = [''/videos'', ''m1'', ''/dev/null''], dry_run = False\<rparr> w_env w_state))))"
proof -
  let ?a = "\<lparr>videos = [''/videos'', ''m1'', ''/dev/null''], dry_run = False\<rparr>"
  have d1: "''/videos'' \<in> dirs w_state \<or> ''/videos'' \<in> specials w_state" by (simp add: w_state_def)
  have d2: "''/dev/null'' \<in> dirs w_state \<or> ''/dev/null'' \<in> specials w_state" by (simp add: w_state_def)
  have m1: "''/videos'' \<in> set (working_list w_config ?a)" by (simp add: working_list_def)
  have m2: "''/dev/null'' \<in> set (working_list w_config ?a)" by (simp add: working_list_def)
  have r: "parse_arguments w_config ?a w_env w_state
           = Inr (?a, [''/videos'', ''/dev/null''], w_state\<lparr>trace := [not_found ''m1'']\<rparr>)"
    by (simp add: parse_arguments_spec working_list_def path_exists_def w_state_def w_env_def)
  have h: "\<not> dry_run ?a \<and> DISPLAYS w_config \<noteq> []
          \<and> (\<forall>i<length (DISPLAYS w_config). \<exists>c. popen_result w_env i = Some c \<and> (exits_at c = None \<longrightarrow> obeys_term c))
          \<and> (interrupt_at w_env \<noteq> None
              \<or> (\<exists>i<length (DISPLAYS w_config). \<exists>c t. popen_result w_env i = Some c \<and> exits_at c = Some t))"
    using w_players(1) [of "length (DISPLAYS w_config)"] w_ends(1) by (simp add: w_config_def)
  have n: "length (DISPLAYS w_config) = 2" "DISPLAYS w_config ! 0 = 0" "DISPLAYS w_config ! Suc 0 = 1"
    by (simp_all add: w_config_def)
  have t0: "length (trace w_state) = 0" by (simp add: w_state_def)
  from directory_passes_existence_check [OF d1 m1 r, THEN conjunct2, THEN conjunct2, THEN mp, OF h]
  obtain s where ms: "main w_config ?a w_env w_state = Some (Returned, s)"
    and p: "\<forall>i<length (DISPLAYS w_config).
              Popen ([''mpv'', ''--config-dir='' @ config_dir_of w_env,
                      ''--fs-screen='' @ str_int (DISPLAYS w_config ! i)] @ [''/videos'', ''/dev/null'']) i
                \<in> set (drop (length (trace w_state)) (trace s))"
    and q1: "not_found ''/videos'' \<notin> set (drop (length (trace w_state)) (trace s))"
    by (elim exE conjE)
  from directory_passes_existence_check [OF d2 m2 r, THEN conjunct2, THEN conjunct2, THEN mp, OF h]
  obtain s' where ms': "main w_config ?a w_env w_state = Some (Returned, s')"
    and q2: "not_found ''/dev/null'' \<notin> set (drop (length (trace w_state)) (trace s'))"
    by (elim exE conjE)
  from ms ms' have same: "s' = s" by simp
  from p [rule_format, of 0] p [rule_format, of "Suc 0"]
  have "Popen [''mpv'', ''--config-dir=/tmp/mpvconfig_k3x9'', ''--fs-screen=0'', ''/videos'', ''/dev/null''] 0
          \<in> set (trace s)"
       "Popen [''mpv'', ''--config-dir=/tmp/mpvconfig_k3x9'', ''--fs-screen=1'', ''/videos'', ''/dev/null''] 1
          \<in> set (trace s)"
    unfolding n t0 by simp_all
  with q1 q2 same ms r show ?thesis
    unfolding t0 by (simp add: w_state_def)
qed

end
